theory Spec2Isabelle
  imports Main "HOL-Library.Word" "HOL-Library.Char_ord" "HOL-Library.List_Lexorder"
begin

unbundle bit_operations_syntax

section \<open>Python values\<close>

text \<open>
  A Python \<open>str\<close> is a \<open>string\<close>: one \<open>char\<close> per code point, so the strings of the
  model are those whose code points lie below 256, and \<open>length\<close> is Python's \<open>len\<close>.
\<close>

text \<open>The five types of \<open>SCALAR_TYPES\<close> (utils/text.py); a float is its 64 bits.\<close>

datatype scalar = SNone | SBool bool | SInt int | SFloat "64 word" | SStr string

text \<open>
  Any other object is opaque to the program, which reads two things of it,
  \<open>str(type(x))\<close> and \<open>repr(x)\<close>, and nothing of its identity (kept here so that two
  distinct objects can agree on both).
\<close>

record pyobject =
  obj_ident :: nat
  obj_type :: string
  obj_repr :: string

text \<open>
  A dictionary key, as far as \<open>flatten_config\<close> reads it: its rendering by an
  f-string. \<open>KOther\<close> carries that rendering for the remaining hashable keys.
\<close>

datatype pykey = KStr string | KInt int | KBool bool | KNone | KOther string

text \<open>A dict is the list of its items in iteration order.\<close>

datatype pyval =
    PDict "(pykey \<times> pyval) list"
  | PList "pyval list"
  | PTuple "pyval list"
  | PScalar scalar
  | PObject pyobject

section \<open>Rendering integers and keys\<close>

definition digit_char :: "nat \<Rightarrow> char" where
  "digit_char d = char_of (48 + d)"

fun str_nat :: "nat \<Rightarrow> string" where
  "str_nat n = (if n < 10 then [digit_char n] else str_nat (n div 10) @ [digit_char (n mod 10)])"

declare str_nat.simps [simp del]

definition str_int :: "int \<Rightarrow> string" where
  "str_int i = (if i < 0 then CHR ''-'' # str_nat (nat (- i)) else str_nat (nat i))"

fun key_str :: "pykey \<Rightarrow> string" where
  "key_str (KStr s) = s"
| "key_str (KInt i) = str_int i"
| "key_str (KBool b) = (if b then ''True'' else ''False'')"
| "key_str KNone = ''None''"
| "key_str (KOther s) = s"

section \<open>utils/text.py\<close>

definition is_hex_digit :: "char \<Rightarrow> bool" where
  "is_hex_digit c = (let n = (of_char c :: nat) in
     (48 \<le> n \<and> n \<le> 57) \<or> (97 \<le> n \<and> n \<le> 102) \<or> (65 \<le> n \<and> n \<le> 70))"

text \<open>
  \<open>re.sub(r"0x[0-9a-fA-F]+", "0xADDR", s)\<close>: scanning from the left, a \<open>0x\<close> followed by
  at least one hexadecimal digit is replaced, together with the longest run of such
  digits, and the scan goes on behind the run.
\<close>

function sub_addr :: "string \<Rightarrow> string" where
  "sub_addr [] = []"
| "sub_addr [c] = [c]"
| "sub_addr (c # d # rest) =
     (if c = CHR ''0'' \<and> d = CHR ''x'' \<and> takeWhile is_hex_digit rest \<noteq> []
      then ''0xADDR'' @ sub_addr (dropWhile is_hex_digit rest)
      else c # sub_addr (d # rest))"
  by pat_completeness auto
termination
  by (relation "measure length") (auto simp: length_dropWhile_le less_Suc_eq_le le_SucI)

definition stable_repr :: "pyobject \<Rightarrow> string" where
  "stable_repr x = sub_addr (obj_repr x)"

text \<open>Python's \<open>x[:k]\<close>, where a negative \<open>k\<close> counts from the end.\<close>

definition slice_to :: "string \<Rightarrow> int \<Rightarrow> string" where
  "slice_to s k = (if 0 \<le> k then take (nat k) s else take (length s - nat (- k)) s)"

definition short_scalar :: "scalar \<Rightarrow> int \<Rightarrow> scalar" where
  "short_scalar x max_len =
     (case x of
        SStr s \<Rightarrow> if int (length s) > max_len then SStr (slice_to s (max_len - 3) @ ''...'') else x
      | _ \<Rightarrow> x)"

text \<open>
  \<open>s.encode("utf-8")\<close>: a code point below 128 is one byte, one from 128 to 255 is two.
\<close>

definition utf8_char :: "char \<Rightarrow> 8 word list" where
  "utf8_char c = (let n = (of_char c :: nat) in
     if n < 128 then [of_nat n] else [of_nat (192 + n div 64), of_nat (128 + n mod 64)])"

definition utf8_encode :: "string \<Rightarrow> 8 word list" where
  "utf8_encode s = concat (map utf8_char s)"

text \<open>
  \<open>hashlib.sha1(b).hexdigest()\<close> belongs to the standard library, not to this
  repository. The functions below take the digest as the parameter \<open>sha1_hex\<close>, and what
  they are proved to do holds for any digest; the program is their instance at SHA-1,
  \<open>sha1_hexdigest\<close>, defined next as the standard has it (FIPS 180-4).
\<close>

definition object_id :: "(8 word list \<Rightarrow> string) \<Rightarrow> pyobject \<Rightarrow> string" where
  "object_id sha1_hex x = take 12 (sha1_hex (utf8_encode (obj_type x @ ''|'' @ stable_repr x)))"

subsection \<open>SHA-1\<close>

definition rotl32 :: "nat \<Rightarrow> 32 word \<Rightarrow> 32 word" where
  "rotl32 n w = (push_bit n w) OR (drop_bit (32 - n) w)"

text \<open>The length of the message in bits, as eight bytes, the most significant first.\<close>

definition length_bytes :: "64 word \<Rightarrow> 8 word list" where
  "length_bytes n =
     [ucast (drop_bit 56 n), ucast (drop_bit 48 n), ucast (drop_bit 40 n), ucast (drop_bit 32 n),
      ucast (drop_bit 24 n), ucast (drop_bit 16 n), ucast (drop_bit 8 n), ucast n]"

text \<open>
  Padding: the byte \<open>0x80\<close>, zero bytes up to 56 modulo 64, and the length.
\<close>

definition sha1_pad :: "8 word list \<Rightarrow> 8 word list" where
  "sha1_pad bs =
     bs @ [0x80] @ replicate ((119 - length bs mod 64) mod 64) 0
        @ length_bytes (of_nat (8 * length bs))"

text \<open>Four bytes make one word, the most significant first.\<close>

fun be_words :: "8 word list \<Rightarrow> 32 word list" where
  "be_words (a # b # c # d # rest) =
     (push_bit 24 (ucast a) OR push_bit 16 (ucast b) OR push_bit 8 (ucast c) OR ucast d)
       # be_words rest"
| "be_words rest = []"

text \<open>The message schedule: the 16 words of a block are extended to 80.\<close>

function sha1_schedule :: "32 word list \<Rightarrow> 32 word list" where
  "sha1_schedule ws =
     (if length ws < 80
      then sha1_schedule (ws @ [rotl32 1 (ws ! (length ws - 3) XOR ws ! (length ws - 8)
                                          XOR ws ! (length ws - 14) XOR ws ! (length ws - 16))])
      else ws)"
  by pat_completeness auto
termination
  by (relation "measure (\<lambda>ws. 80 - length ws)") auto

declare sha1_schedule.simps [simp del]

definition sha1_f :: "nat \<Rightarrow> 32 word \<Rightarrow> 32 word \<Rightarrow> 32 word \<Rightarrow> 32 word" where
  "sha1_f i b c d =
     (if i < 20 then (b AND c) OR (NOT b AND d)
      else if i < 40 then b XOR c XOR d
      else if i < 60 then (b AND c) OR (b AND d) OR (c AND d)
      else b XOR c XOR d)"

definition sha1_k :: "nat \<Rightarrow> 32 word" where
  "sha1_k i = (if i < 20 then 0x5A827999 else if i < 40 then 0x6ED9EBA1
               else if i < 60 then 0x8F1BBCDC else 0xCA62C1D6)"

type_synonym sha1_state = "32 word \<times> 32 word \<times> 32 word \<times> 32 word \<times> 32 word"

text \<open>The 80 rounds, one for each word of the schedule; \<open>i\<close> is the number of the round.\<close>

fun sha1_rounds :: "nat \<Rightarrow> 32 word list \<Rightarrow> sha1_state \<Rightarrow> sha1_state" where
  "sha1_rounds i [] s = s"
| "sha1_rounds i (w # ws) (a, b, c, d, e) =
     sha1_rounds (i + 1) ws
       (rotl32 5 a + sha1_f i b c d + e + sha1_k i + w, a, rotl32 30 b, c, d)"

definition sha1_block :: "sha1_state \<Rightarrow> 32 word list \<Rightarrow> sha1_state" where
  "sha1_block h ws =
     (case h of (h0, h1, h2, h3, h4) \<Rightarrow>
        (case sha1_rounds 0 (sha1_schedule ws) h of (a, b, c, d, e) \<Rightarrow>
           (h0 + a, h1 + b, h2 + c, h3 + d, h4 + e)))"

function sha1_blocks :: "sha1_state \<Rightarrow> 32 word list \<Rightarrow> sha1_state" where
  "sha1_blocks h ws =
     (if length ws < 16 then h else sha1_blocks (sha1_block h (take 16 ws)) (drop 16 ws))"
  by pat_completeness auto
termination
  by (relation "measure (\<lambda>(h, ws). length ws)") auto

declare sha1_blocks.simps [simp del]

definition hex_char :: "nat \<Rightarrow> char" where
  "hex_char d = ''0123456789abcdef'' ! d"

definition hex32 :: "32 word \<Rightarrow> string" where
  "hex32 w =
     [hex_char (unat (drop_bit 28 w AND 15)), hex_char (unat (drop_bit 24 w AND 15)),
      hex_char (unat (drop_bit 20 w AND 15)), hex_char (unat (drop_bit 16 w AND 15)),
      hex_char (unat (drop_bit 12 w AND 15)), hex_char (unat (drop_bit 8 w AND 15)),
      hex_char (unat (drop_bit 4 w AND 15)), hex_char (unat (w AND 15))]"

definition sha1_hexdigest :: "8 word list \<Rightarrow> string" where
  "sha1_hexdigest bs =
     (case sha1_blocks (0x67452301, 0xEFCDAB89, 0x98BADCFE, 0x10325476, 0xC3D2E1F0)
             (be_words (sha1_pad bs))
      of (a, b, c, d, e) \<Rightarrow> hex32 a @ hex32 b @ hex32 c @ hex32 d @ hex32 e)"

section \<open>collectors/neuralforecast\_af\_v2.py: the flattener\<close>

record config_entry =
  auto_name :: string
  key_path :: string
  value_kind :: string
  value_scalar :: scalar
  value_obj_id :: string

record object_record =
  obj_id :: string
  py_type :: string
  repr_text :: string

type_synonym object_pool = "string \<rightharpoonup> object_record"

text \<open>
  \<open>config_rows\<close> and \<open>obj_rows\<close> are mutated in place by the source; the model passes
  the pair and returns it updated.
\<close>

type_synonym flat_state = "config_entry list \<times> object_pool"

definition child_path :: "string \<Rightarrow> string \<Rightarrow> string" where
  "child_path kp k = (if kp \<noteq> [] then kp @ ''.'' @ k else k)"

definition emit_scalar :: "string \<Rightarrow> scalar \<Rightarrow> string \<Rightarrow> flat_state \<Rightarrow> flat_state" where
  "emit_scalar an s kp st =
     (fst st @ [\<lparr>auto_name = an, key_path = kp, value_kind = ''scalar'',
                 value_scalar = short_scalar s 80, value_obj_id = ''''\<rparr>],
      snd st)"

definition emit_object ::
  "(8 word list \<Rightarrow> string) \<Rightarrow> string \<Rightarrow> pyobject \<Rightarrow> string \<Rightarrow> flat_state \<Rightarrow> flat_state" where
  "emit_object sha1_hex an x kp st =
     (let oid = object_id sha1_hex x;
          pool = (if oid \<notin> dom (snd st)
                  then (snd st)(oid \<mapsto> \<lparr>obj_id = oid, py_type = obj_type x, repr_text = stable_repr x\<rparr>)
                  else snd st)
      in (fst st @ [\<lparr>auto_name = an, key_path = kp, value_kind = ''object'',
                      value_scalar = SStr '''', value_obj_id = oid\<rparr>],
          pool))"

text \<open>
  The two \<open>for\<close> loops are the functions \<open>flatten_items\<close> (over \<open>obj.items()\<close>) and
  \<open>flatten_elems\<close> (over \<open>enumerate(obj)\<close>, with the running index). The order of the
  equations of \<open>flatten_config\<close> is the order of the \<open>isinstance\<close> tests.
\<close>

function (sequential) flatten_config ::
    "(8 word list \<Rightarrow> string) \<Rightarrow> string \<Rightarrow> pyval \<Rightarrow> string \<Rightarrow> flat_state \<Rightarrow> flat_state"
  and flatten_items ::
    "(8 word list \<Rightarrow> string) \<Rightarrow> string \<Rightarrow> (pykey \<times> pyval) list \<Rightarrow> string \<Rightarrow> flat_state \<Rightarrow> flat_state"
  and flatten_elems ::
    "(8 word list \<Rightarrow> string) \<Rightarrow> string \<Rightarrow> nat \<Rightarrow> pyval list \<Rightarrow> string \<Rightarrow> flat_state \<Rightarrow> flat_state"
where
  "flatten_config H an (PDict items) kp st = flatten_items H an items kp st"
| "flatten_config H an (PList xs) kp st = flatten_elems H an 0 xs kp st"
| "flatten_config H an (PTuple xs) kp st = flatten_elems H an 0 xs kp st"
| "flatten_config H an (PScalar s) kp st = emit_scalar an s kp st"
| "flatten_config H an (PObject x) kp st = emit_object H an x kp st"
| "flatten_items H an [] kp st = st"
| "flatten_items H an ((k, v) # rest) kp st =
     flatten_items H an rest kp (flatten_config H an v (child_path kp (key_str k)) st)"
| "flatten_elems H an i [] kp st = st"
| "flatten_elems H an i (v # rest) kp st =
     flatten_elems H an (Suc i) rest kp (flatten_config H an v (child_path kp (str_nat i)) st)"
  by pat_completeness auto
termination
  by (relation "measure (case_sum (\<lambda>p. size (fst (snd (snd p))))
    (case_sum (\<lambda>p. size_list (size_prod (\<lambda>x. 0) size) (fst (snd (snd p))))
      (\<lambda>p. size_list size (fst (snd (snd (snd p)))))))") auto

text \<open>The opaque objects at the leaves of a value, in the order the flattener meets them.\<close>

function (sequential) objects_of :: "pyval \<Rightarrow> pyobject list"
  and objects_of_items :: "(pykey \<times> pyval) list \<Rightarrow> pyobject list"
  and objects_of_elems :: "pyval list \<Rightarrow> pyobject list"
where
  "objects_of (PDict items) = objects_of_items items"
| "objects_of (PList xs) = objects_of_elems xs"
| "objects_of (PTuple xs) = objects_of_elems xs"
| "objects_of (PScalar s) = []"
| "objects_of (PObject x) = [x]"
| "objects_of_items [] = []"
| "objects_of_items ((k, v) # rest) = objects_of v @ objects_of_items rest"
| "objects_of_elems [] = []"
| "objects_of_elems (v # rest) = objects_of v @ objects_of_elems rest"
  by pat_completeness auto
termination
  by (relation "measure (case_sum size
    (case_sum (size_list (size_prod (\<lambda>x. 0) size)) (size_list size)))") auto

text \<open>The ObjectRecord that \<open>flatten_config\<close> stores for an object.\<close>

definition pool_record :: "(8 word list \<Rightarrow> string) \<Rightarrow> pyobject \<Rightarrow> object_record" where
  "pool_record H x = \<lparr>obj_id = object_id H x, py_type = obj_type x, repr_text = stable_repr x\<rparr>"

text \<open>Two objects of the same declared type with equal stable representations.\<close>

definition same_rendering :: "pyobject \<Rightarrow> pyobject \<Rightarrow> bool" where
  "same_rendering x y = (obj_type y = obj_type x \<and> stable_repr y = stable_repr x)"

text \<open>
  Python's \<open>str\<close> of a scalar, the text a reader of the table sees; the rendering of a
  float is a parameter.
\<close>

definition scalar_str :: "(64 word \<Rightarrow> string) \<Rightarrow> scalar \<Rightarrow> string" where
  "scalar_str float_repr x =
     (case x of SNone \<Rightarrow> ''None'' | SBool b \<Rightarrow> (if b then ''True'' else ''False'')
      | SInt i \<Rightarrow> str_int i | SFloat f \<Rightarrow> float_repr f | SStr s \<Rightarrow> s)"

text \<open>A stored value that is a string has at most 80 characters.\<close>

definition short_str :: "scalar \<Rightarrow> bool" where
  "short_str x = (case x of SStr t \<Rightarrow> length t \<le> 80 | _ \<Rightarrow> True)"

section \<open>Strings: the library functions the collectors call\<close>

text \<open>\<open>s.startswith(p)\<close>.\<close>

definition startswith :: "string \<Rightarrow> string \<Rightarrow> bool" where
  "startswith s p = (take (length p) s = p)"

text \<open>
  The line boundaries of \<open>str.splitlines\<close> among the code points below 256: LF, VT, FF, CR,
  FS, GS, RS and NEL; a CR directly followed by LF is one boundary.
\<close>

definition is_line_break :: "char \<Rightarrow> bool" where
  "is_line_break c = (of_char c \<in> {10, 11, 12, 13, 28, 29, 30, 133 :: nat})"

fun splitlines_from :: "string \<Rightarrow> string \<Rightarrow> string list" where
  "splitlines_from cur [] = (if cur = [] then [] else [cur])"
| "splitlines_from cur [c] = (if is_line_break c then [cur] else [cur @ [c]])"
| "splitlines_from cur (c # d # rest) =
     (if of_char c = (13 :: nat) \<and> of_char d = (10 :: nat) then cur # splitlines_from [] rest
      else if is_line_break c then cur # splitlines_from [] (d # rest)
      else splitlines_from (cur @ [c]) (d # rest))"

definition splitlines :: "string \<Rightarrow> string list" where
  "splitlines s = splitlines_from [] s"

text \<open>
  \<open>doc.splitlines()[0] if doc else ""\<close>. A non-empty string has at least one line
  (\<open>first_line_in_range\<close> below), so the index is in range and the last case is never
  taken.
\<close>

definition first_line :: "string \<Rightarrow> string" where
  "first_line doc_text =
     (if doc_text = [] then [] else (case splitlines doc_text of l # ls \<Rightarrow> l | [] \<Rightarrow> []))"

section \<open>collectors/neuralforecast\_catalog.py: the model rows\<close>

text \<open>
  What the collector reads of a class found by \<open>inspect.getmembers\<close>: its \<open>__module__\<close>,
  \<open>inspect.getdoc(cls) or ""\<close>, and \<open>issubclass(cls, BaseModel)\<close>, which is \<open>None\<close> when
  the test raises.
\<close>

record reflected_class =
  cls_module :: string
  cls_doc :: string
  cls_is_base_model :: "bool option"

text \<open>
  A module of \<open>pkgutil.iter_modules\<close>: its name, and either the \<open>repr\<close> of the exception
  of its import or its class members, as \<open>inspect.getmembers\<close> lists them.
\<close>

type_synonym module_info = "string \<times> (string + (string \<times> reflected_class) list)"

record model_row =
  kind :: string
  name :: string
  module :: string
  qualname :: string
  doc :: string

record import_error_row =
  err_module :: string
  err_text :: string

datatype py_error = KeyError

text \<open>The inner loop of \<open>_collect_models_only\<close>, returning the rows it appends.\<close>

fun collect_members :: "bool \<Rightarrow> string \<Rightarrow> (string \<times> reflected_class) list \<Rightarrow> model_row list" where
  "collect_members base_model mod_name [] = []"
| "collect_members base_model mod_name ((cls_name, cls) # rest) =
     (if cls_module cls \<noteq> mod_name then collect_members base_model mod_name rest
      else if startswith cls_name ''_'' then collect_members base_model mod_name rest
      else if base_model \<and> cls_is_base_model cls \<noteq> Some True
      then collect_members base_model mod_name rest
      else \<lparr>kind = ''model'', name = cls_name, module = cls_module cls,
             qualname = cls_module cls @ ''.'' @ cls_name, doc = first_line (cls_doc cls)\<rparr>
           # collect_members base_model mod_name rest)"

text \<open>The outer loop: the rows and the import errors, in the order they are appended.\<close>

fun collect_modules :: "bool \<Rightarrow> module_info list \<Rightarrow> model_row list \<times> import_error_row list" where
  "collect_modules base_model [] = ([], [])"
| "collect_modules base_model ((modname, Inl e) # rest) =
     (case collect_modules base_model rest of
        (rows, errors) \<Rightarrow> (rows, \<lparr>err_module = modname, err_text = e\<rparr> # errors))"
| "collect_modules base_model ((modname, Inr members) # rest) =
     (case collect_modules base_model rest of
        (rows, errors) \<Rightarrow> (collect_members base_model modname members @ rows, errors))"

text \<open>
  \<open>DataFrame.drop_duplicates(subset=[key])\<close> with pandas' default \<open>keep="first"\<close>: a row
  is dropped when an earlier row has its key; the order of the others is kept.
\<close>

fun drop_duplicates_from :: "('a \<Rightarrow> 'k) \<Rightarrow> 'k list \<Rightarrow> 'a list \<Rightarrow> 'a list" where
  "drop_duplicates_from key seen [] = []"
| "drop_duplicates_from key seen (r # rs) =
     (if key r \<in> set seen then drop_duplicates_from key seen rs
      else r # drop_duplicates_from key (key r # seen) rs)"

definition drop_duplicates :: "('a \<Rightarrow> 'k) \<Rightarrow> 'a list \<Rightarrow> 'a list" where
  "drop_duplicates key rows = drop_duplicates_from key [] rows"

text \<open>
  \<open>_collect_models_only\<close>. A frame built from no rows has no columns, and
  \<open>sort_values(["name"])\<close> raises \<open>KeyError\<close> on it. \<open>sort_values\<close> is modelled by a stable
  sort; pandas does not promise the order of rows with equal names, and nothing below
  depends on it.
\<close>

definition collect_models_only ::
  "bool \<Rightarrow> module_info list \<Rightarrow> py_error + (model_row list \<times> import_error_row list)" where
  "collect_models_only base_model mods =
     (case collect_modules base_model mods of
        (rows, errors) \<Rightarrow>
          if rows = [] then Inl KeyError
          else Inr (sort_key name (drop_duplicates qualname rows),
                    if length errors > 0 then sort_key err_module errors else errors))"

section \<open>collectors/neuralforecast\_af\_v2.py: the parameter tables\<close>

text \<open>The table \<open>PARAM_GROUP\<close> and \<open>classify_param\<close>.\<close>

definition PARAM_GROUP :: "(string \<times> string) list" where
  "PARAM_GROUP =
     [(''h'', ''forecasting''),
      (''loss'', ''loss''),
      (''valid_loss'', ''loss''),
      (''config'', ''search_space''),
      (''search_alg'', ''search_space''),
      (''num_samples'', ''search_space''),
      (''backend'', ''search_space''),
      (''callbacks'', ''search_space''),
      (''cpus'', ''resources''),
      (''gpus'', ''resources''),
      (''refit_with_val'', ''workflow''),
      (''verbose'', ''workflow''),
      (''alias'', ''workflow''),
      (''S'', ''hierarchical''),
      (''cls_model'', ''hierarchical''),
      (''reconciliation'', ''hierarchical''),
      (''n_series'', ''data'')]"

definition classify_param :: "string \<Rightarrow> string" where
  "classify_param pname = (case map_of PARAM_GROUP pname of Some g \<Rightarrow> g | None \<Rightarrow> ''other'')"

text \<open>
  A parameter of \<open>inspect.signature(cls)\<close>. Its default is absent (\<open>inspect._empty\<close>), a
  scalar, or any other value, of which the code reads the type and the \<open>repr\<close>. Its
  annotation is absent or has an optional \<open>__name__\<close> and a \<open>str\<close>.
\<close>

datatype default_value = NoDefault | DefScalar scalar | DefObject pyobject

datatype annotation_value = NoAnnotation | Annotated "string option" string

record sig_param =
  sp_default :: default_value
  sp_annotation :: annotation_value
  sp_kind :: string

text \<open>
  \<open>"" if p.annotation is inspect._empty else
     (getattr(p.annotation, "__name__", None) or str(p.annotation))\<close>
\<close>

fun annotation_text :: "annotation_value \<Rightarrow> string" where
  "annotation_text NoAnnotation = []"
| "annotation_text (Annotated None s) = s"
| "annotation_text (Annotated (Some n) s) = (if n \<noteq> [] then n else s)"

record param_record =
  param :: string
  param_group :: string
  annotation :: string

record model_param_row =
  mp_auto_name :: string
  mp_param :: string
  mp_required :: bool
  mp_default_kind :: string
  mp_default_scalar :: scalar
  mp_default_obj_id :: string
  mp_kind :: string

text \<open>
  The tables that the loop over the Auto classes fills: \<open>params_master\<close>,
  \<open>model_params_rows\<close>, \<open>config_rows\<close> and \<open>obj_store\<close>. (\<open>models_rows\<close> gets one row
  for each class, read by no other step of the loop, and is left out.)
\<close>

record build_tables =
  params_master :: "string \<rightharpoonup> param_record"
  model_params_rows :: "model_param_row list"
  config_rows :: "config_entry list"
  obj_store :: object_pool

text \<open>One turn of \<open>for pname, p in sig.parameters.items()\<close>.\<close>

definition visit_param ::
  "(8 word list \<Rightarrow> string) \<Rightarrow> string \<Rightarrow> string \<times> sig_param \<Rightarrow> build_tables \<Rightarrow> build_tables" where
  "visit_param H an np t =
     (let pname = fst np; p = snd np in
      if pname \<in> set [''self'', ''args'', ''kwargs''] then t
      else
        let required = (sp_default p = NoDefault);
            default_kind = (case sp_default p of NoDefault \<Rightarrow> ''empty''
                            | DefScalar dv \<Rightarrow> ''scalar'' | DefObject dv \<Rightarrow> ''object'');
            default_scalar = (case sp_default p of DefScalar dv \<Rightarrow> short_scalar dv 80
                              | _ \<Rightarrow> SStr '''');
            default_obj_id = (case sp_default p of DefObject dv \<Rightarrow> object_id H dv | _ \<Rightarrow> '''');
            store = (case sp_default p of
                       DefObject dv \<Rightarrow>
                         if object_id H dv \<notin> dom (obj_store t)
                         then (obj_store t)(object_id H dv \<mapsto>
                                \<lparr>obj_id = object_id H dv, py_type = obj_type dv,
                                 repr_text = stable_repr dv\<rparr>)
                         else obj_store t
                     | _ \<Rightarrow> obj_store t);
            anno = annotation_text (sp_annotation p);
            master = (if pname \<notin> dom (params_master t)
                      then (params_master t)(pname \<mapsto>
                             \<lparr>param = pname, param_group = classify_param pname, annotation = anno\<rparr>)
                      else params_master t)
        in t\<lparr>params_master := master,
             model_params_rows := model_params_rows t @
               [\<lparr>mp_auto_name = an, mp_param = pname, mp_required = required,
                 mp_default_kind = default_kind, mp_default_scalar = default_scalar,
                 mp_default_obj_id = default_obj_id, mp_kind = sp_kind p\<rparr>],
             obj_store := store\<rparr>)"

text \<open>
  An Auto class as the builder reads it: its name, its signature (\<open>None\<close> when
  \<open>inspect.signature\<close> raises), and the result of \<open>try_get_default_config\<close>.
\<close>

record auto_class =
  ac_name :: string
  ac_signature :: "(string \<times> sig_param) list option"
  ac_default_config :: "pyval option"

text \<open>\<open>if sig is not None: for pname, p in sig.parameters.items(): ...\<close>\<close>

definition visit_signature ::
  "(8 word list \<Rightarrow> string) \<Rightarrow> string \<Rightarrow> (string \<times> sig_param) list option \<Rightarrow> build_tables
     \<Rightarrow> build_tables" where
  "visit_signature H an sg t = (case sg of None \<Rightarrow> t | Some ps \<Rightarrow> fold (visit_param H an) ps t)"

text \<open>
  \<open>if isinstance(cfg, dict): flatten_config(auto_name, cfg, "default_config", config_rows,
  obj_store)\<close>
\<close>

definition flatten_default_config ::
  "(8 word list \<Rightarrow> string) \<Rightarrow> string \<Rightarrow> pyval option \<Rightarrow> build_tables \<Rightarrow> build_tables" where
  "flatten_default_config H an cfg t =
     (case cfg of
        Some (PDict items) \<Rightarrow>
          (case flatten_config H an (PDict items) ''default_config'' (config_rows t, obj_store t) of
             (rows, pool) \<Rightarrow> t\<lparr>config_rows := rows, obj_store := pool\<rparr>)
      | _ \<Rightarrow> t)"

text \<open>One turn of the loop over \<open>sorted(auto_classes, key=lambda x: x[0])\<close>, and the loop.\<close>

definition visit_class :: "(8 word list \<Rightarrow> string) \<Rightarrow> auto_class \<Rightarrow> build_tables \<Rightarrow> build_tables" where
  "visit_class H c t =
     flatten_default_config H (ac_name c) (ac_default_config c)
       (visit_signature H (ac_name c) (ac_signature c) t)"

definition build_tables_of :: "(8 word list \<Rightarrow> string) \<Rightarrow> auto_class list \<Rightarrow> build_tables" where
  "build_tables_of H auto_classes =
     fold (visit_class H) (sort_key ac_name auto_classes)
       \<lparr>params_master = Map.empty, model_params_rows = [], config_rows = [],
        obj_store = Map.empty\<rparr>"

text \<open>
  The parameters the two loops visit, in the order of the visits, without those named
  \<open>self\<close>, \<open>args\<close> and \<open>kwargs\<close>.
\<close>

definition visited_params :: "auto_class list \<Rightarrow> (string \<times> sig_param) list" where
  "visited_params auto_classes =
     concat (map (\<lambda>c. case ac_signature c of None \<Rightarrow> []
                       | Some ps \<Rightarrow> filter (\<lambda>np. fst np \<notin> set [''self'', ''args'', ''kwargs'']) ps)
                 (sort_key ac_name auto_classes))"

definition param_record_of :: "string \<times> sig_param \<Rightarrow> param_record" where
  "param_record_of np =
     \<lparr>param = fst np, param_group = classify_param (fst np),
      annotation = annotation_text (sp_annotation (snd np))\<rparr>"

section \<open>utils/web\_cache.py\<close>

text \<open>
  The world \<open>fetch_and_cache\<close> acts on: the regular files, by resolved path (the list of
  the path's components), each with the text that \<open>read_text(encoding="utf-8",
  errors="ignore")\<close> returns for it; the directories; and the log of the GET requests
  issued so far, each with its URL and timeout.
\<close>

record world =
  files :: "string list \<rightharpoonup> string"
  dirs :: "string list set"
  requests :: "(string \<times> nat) list"

text \<open>The answer of \<open>requests.get\<close>: an exception, or a response with status and text.\<close>

datatype http_result = RequestFailed | Response nat string

datatype io_error =
    MkdirFileExists
  | IsADirectory
  | RequestException
  | HTTPStatusError nat

text \<open>A path and all its parents, up to the root \<open>[]\<close>.\<close>

definition ancestors :: "string list \<Rightarrow> string list list" where
  "ancestors d = map (\<lambda>n. take n d) [0..<Suc (length d)]"

text \<open>
  \<open>p.parent.mkdir(parents=True, exist_ok=True)\<close>: it raises when the directory or one of
  its parents exists as a regular file, and otherwise leaves all of them directories.
\<close>

definition mkdir_parents :: "string list \<Rightarrow> world \<Rightarrow> io_error + world" where
  "mkdir_parents d w =
     (if list_ex (\<lambda>a. files w a \<noteq> None) (ancestors d) then Inl MkdirFileExists
      else Inr (w\<lparr>dirs := dirs w \<union> set (ancestors d)\<rparr>))"

definition path_exists :: "string list \<Rightarrow> world \<Rightarrow> bool" where
  "path_exists p w = (files w p \<noteq> None \<or> p \<in> dirs w)"

definition read_text :: "string list \<Rightarrow> world \<Rightarrow> io_error + string" where
  "read_text p w = (case files w p of Some t \<Rightarrow> Inr t | None \<Rightarrow> Inl IsADirectory)"

text \<open>
  \<open>p.write_text(text, encoding="utf-8")\<close> on a POSIX system writes the characters as
  they are; \<open>read_text\<close> opens the file with universal newlines and returns every
  CR LF and every other CR as one LF.
\<close>

fun universal_newlines :: "string \<Rightarrow> string" where
  "universal_newlines [] = []"
| "universal_newlines [c] = (if of_char c = (13 :: nat) then [CHR 0x0A] else [c])"
| "universal_newlines (c # d # rest) =
     (if of_char c = (13 :: nat) \<and> of_char d = (10 :: nat) then CHR 0x0A # universal_newlines rest
      else if of_char c = (13 :: nat) then CHR 0x0A # universal_newlines (d # rest)
      else c # universal_newlines (d # rest))"

definition write_text :: "string list \<Rightarrow> string \<Rightarrow> world \<Rightarrow> io_error + world" where
  "write_text p t w =
     (if p \<in> dirs w then Inl IsADirectory
      else Inr (w\<lparr>files := (files w)(p \<mapsto> universal_newlines t)\<rparr>))"

text \<open>\<open>r.raise_for_status()\<close> raises for the statuses from 400 to 599.\<close>

definition raise_for_status :: "nat \<Rightarrow> io_error + unit" where
  "raise_for_status status =
     (if 400 \<le> status \<and> status < 600 then Inl (HTTPStatusError status) else Inr ())"

text \<open>
  \<open>fetch_and_cache\<close>. \<open>resolve\<close> is \<open>Path(cache_path).resolve()\<close> and \<open>http_get\<close> is the
  remote side of \<open>requests.get\<close>; both lie outside the repository and are parameters.
  The result is the exception raised or the text returned, and the world afterwards.
\<close>

definition fetch_and_cache ::
  "(string \<Rightarrow> string list) \<Rightarrow> (string \<Rightarrow> nat \<Rightarrow> http_result) \<Rightarrow>
   string \<Rightarrow> string \<Rightarrow> nat \<Rightarrow> bool \<Rightarrow> world \<Rightarrow> (io_error + string) \<times> world" where
  "fetch_and_cache resolve http_get url cache_path timeout force w =
     (let p = resolve cache_path in
      case mkdir_parents (butlast p) w of
        Inl e \<Rightarrow> (Inl e, w)
      | Inr w1 \<Rightarrow>
          if path_exists p w1 \<and> \<not> force then (read_text p w1, w1)
          else
            let w2 = w1\<lparr>requests := requests w1 @ [(url, timeout)]\<rparr> in
            case http_get url timeout of
              RequestFailed \<Rightarrow> (Inl RequestException, w2)
            | Response status text \<Rightarrow>
                (case raise_for_status status of
                   Inl e \<Rightarrow> (Inl e, w2)
                 | Inr u \<Rightarrow>
                     (case write_text p text w2 of
                        Inl e \<Rightarrow> (Inl e, w2)
                      | Inr w3 \<Rightarrow> (Inr text, w3))))"

text \<open>
  What holds of every file system: the root is a directory, the parent of a regular
  file, and every directory above it, is a directory, and no path is both a regular file
  and a directory.
\<close>

definition fs_ok :: "world \<Rightarrow> bool" where
  "fs_ok w = ([] \<in> dirs w
              \<and> (\<forall>p. files w p \<noteq> None \<longrightarrow> set (ancestors (butlast p)) \<subseteq> dirs w)
              \<and> (\<forall>p. files w p \<noteq> None \<longrightarrow> p \<notin> dirs w))"

section \<open>collectors/neuralforecast\_catalog.py: the family taxonomy parser\<close>

text \<open>\<open>sub in s\<close>.\<close>

fun contains :: "string \<Rightarrow> string \<Rightarrow> bool" where
  "contains [] sub = (sub = [])"
| "contains (c # s) sub = (startswith (c # s) sub \<or> contains s sub)"

text \<open>\<open>str.lower\<close> on the code points below 256.\<close>

definition lower_char :: "char \<Rightarrow> char" where
  "lower_char c = (let n = (of_char c :: nat) in
     if (65 \<le> n \<and> n \<le> 90) \<or> (192 \<le> n \<and> n \<le> 222 \<and> n \<noteq> 215) then char_of (n + 32) else c)"

definition lower :: "string \<Rightarrow> string" where
  "lower s = map lower_char s"

text \<open>The whitespace of \<open>str.strip\<close> among the code points below 256.\<close>

definition is_space :: "char \<Rightarrow> bool" where
  "is_space c = (let n = (of_char c :: nat) in
     (9 \<le> n \<and> n \<le> 13) \<or> (28 \<le> n \<and> n \<le> 32) \<or> n = 133 \<or> n = 160)"

definition strip :: "string \<Rightarrow> string" where
  "strip s = rev (dropWhile is_space (rev (dropWhile is_space s)))"

text \<open>
  \<open>re.sub(r"<[^>]+>", "\n", html)\<close>: a \<open><\<close>, the longest run of characters other than
  \<open>>\<close>, which must not be empty, and the \<open>>\<close> behind it become one line feed.
\<close>

function strip_tags :: "string \<Rightarrow> string" where
  "strip_tags [] = []"
| "strip_tags (c # rest) =
     (if c = CHR ''<'' \<and> takeWhile (\<lambda>d. d \<noteq> CHR ''>'') rest \<noteq> []
         \<and> dropWhile (\<lambda>d. d \<noteq> CHR ''>'') rest \<noteq> []
      then CHR 0x0A # strip_tags (tl (dropWhile (\<lambda>d. d \<noteq> CHR ''>'') rest))
      else c # strip_tags rest)"
  by pat_completeness auto
termination
  by (relation "measure length")
     (auto simp: less_Suc_eq_le intro: order_trans [OF diff_le_self length_dropWhile_le])

text \<open>\<open>[A-Za-z0-9_]\<close>, and the word characters of \<open>\b\<close> among the code points below 256.\<close>

definition is_ident_char :: "char \<Rightarrow> bool" where
  "is_ident_char c = (let n = (of_char c :: nat) in
     (65 \<le> n \<and> n \<le> 90) \<or> (97 \<le> n \<and> n \<le> 122) \<or> (48 \<le> n \<and> n \<le> 57) \<or> n = 95)"

definition is_word_char :: "char \<Rightarrow> bool" where
  "is_word_char c = (let n = (of_char c :: nat) in
     is_ident_char c \<or> n \<in> {170, 178, 179, 181, 185, 186, 188, 189, 190}
     \<or> (192 \<le> n \<and> n \<noteq> 215 \<and> n \<noteq> 247))"

text \<open>
  \<open>re.findall(r"\bAuto[A-Za-z0-9_]+\b", ln)\<close>, scanning from the left; \<open>prev_word\<close> tells
  whether the character before the scan position is a word character. A match needs a
  word boundary in front, \<open>Auto\<close>, a non-empty run of identifier characters, taken as
  long as it goes, and a word boundary behind; the scan goes on behind the match.
\<close>

function find_auto :: "bool \<Rightarrow> string \<Rightarrow> string list" where
  "find_auto prev_word [] = []"
| "find_auto prev_word (c # rest) =
     (if \<not> prev_word \<and> startswith (c # rest) ''Auto''
         \<and> takeWhile is_ident_char (drop 3 rest) \<noteq> []
         \<and> (case dropWhile is_ident_char (drop 3 rest) of [] \<Rightarrow> True | d # ds \<Rightarrow> \<not> is_word_char d)
      then (''Auto'' @ takeWhile is_ident_char (drop 3 rest))
             # find_auto True (dropWhile is_ident_char (drop 3 rest))
      else find_auto (is_word_char c) rest)"
  by pat_completeness auto
termination
  by (relation "measure (\<lambda>(p, s). length s)")
     (auto simp: less_Suc_eq_le intro: order_trans [OF length_dropWhile_le])

definition find_auto_names :: "string \<Rightarrow> string list" where
  "find_auto_names ln = find_auto False ln"

text \<open>The local function \<open>norm\<close>.\<close>

definition norm :: "string \<Rightarrow> string" where
  "norm h0 =
     (let h = lower h0 in
      if contains h ''rnn-based'' then ''RNN''
      else if contains h ''transformer-based'' then ''Transformer''
      else if contains h ''cnn-based'' then ''CNN''
      else if contains h ''linear'' \<or> contains h ''mlp'' then ''Linear/MLP''
      else if contains h ''specialized'' then ''Specialized''
      else ''Other'')"

text \<open>The test that makes a line a section header.\<close>

definition is_header :: "string \<Rightarrow> bool" where
  "is_header ln =
     (contains ln ''RNN-Based Models'' \<or> contains ln ''Transformer-Based Models''
      \<or> contains ln ''CNN-Based Models'' \<or> contains ln ''Linear and MLP Models''
      \<or> contains ln ''Specialized Models'')"

text \<open>\<open>lines = [ln.strip() for ln in text.splitlines() if ln.strip()]\<close>\<close>

definition html_lines :: "string \<Rightarrow> string list" where
  "html_lines html = filter (\<lambda>ln. ln \<noteq> []) (map strip (splitlines (strip_tags html)))"

text \<open>
  One turn of \<open>for ln in lines\<close>, on the variables \<open>family\<close> (\<open>None\<close> at first) and
  \<open>fam_map\<close>; \<open>if family:\<close> holds of a string that is not empty.
\<close>

definition parse_line ::
  "string \<Rightarrow> string option \<times> (string \<rightharpoonup> string) \<Rightarrow> string option \<times> (string \<rightharpoonup> string)" where
  "parse_line ln st =
     (if is_header ln then (Some (norm ln), snd st)
      else (case fst st of
              None \<Rightarrow> st
            | Some f \<Rightarrow>
                if f \<noteq> [] then (fst st, fold (\<lambda>n m. m(n \<mapsto> f)) (find_auto_names ln) (snd st))
                else st))"

definition parse_lines :: "string list \<Rightarrow> string \<rightharpoonup> string" where
  "parse_lines lns = snd (fold parse_line lns (None, Map.empty))"

definition parse_automodel_family_map :: "string \<Rightarrow> string \<rightharpoonup> string" where
  "parse_automodel_family_map html = parse_lines (html_lines html)"

text \<open>The header in force behind the lines \<open>lns\<close>: the last of them that is a header.\<close>

definition active_header :: "string list \<Rightarrow> string option" where
  "active_header lns = find is_header (rev lns)"

section \<open>The flattener on values that share and refer back\<close>











section \<open>The flattener on scalars and on empty containers\<close>

text \<open>
  C3. For a scalar input (\<open>None\<close>, a bool, an int, a float or a string) \<open>flatten_config\<close>
  appends exactly one entry, of \<open>value_kind\<close> \<open>"scalar"\<close>, to the configuration rows, and
  returns the object pool it was given.
\<close>

theorem flatten_config_scalar:
  "flatten_config H an (PScalar s) kp (rows, pool) =
     (rows @ [\<lparr>auto_name = an, key_path = kp, value_kind = ''scalar'',
                value_scalar = short_scalar s 80, value_obj_id = ''''\<rparr>], pool)
   \<and> length (fst (flatten_config H an (PScalar s) kp (rows, pool))) = Suc (length rows)
   \<and> snd (flatten_config H an (PScalar s) kp (rows, pool)) = pool"
  by (simp add: emit_scalar_def)

text \<open>
  C9. For an empty mapping, an empty list and an empty tuple \<open>flatten_config\<close> returns the
  rows and the pool it was given: no entry carries the key path of an empty container.
\<close>

theorem flatten_config_empty_container:
  "flatten_config H an (PDict []) kp (rows, pool) = (rows, pool)
   \<and> flatten_config H an (PList []) kp (rows, pool) = (rows, pool)
   \<and> flatten_config H an (PTuple []) kp (rows, pool) = (rows, pool)"
  by simp

text \<open>
  C6. Flattening \<open>{"a": 1, "b": [2, 3]}\<close> from the key path \<open>"cfg"\<close> gives exactly three
  entries, all scalar, with the key paths \<open>cfg.a\<close>, \<open>cfg.b.0\<close> and \<open>cfg.b.1\<close>, and leaves
  the pool as it was.
\<close>

theorem flatten_config_nested_example:
  "flatten_config H an
     (PDict [(KStr ''a'', PScalar (SInt 1)),
             (KStr ''b'', PList [PScalar (SInt 2), PScalar (SInt 3)])])
     ''cfg'' ([], pool) =
   ([\<lparr>auto_name = an, key_path = ''cfg.a'', value_kind = ''scalar'',
       value_scalar = SInt 1, value_obj_id = ''''\<rparr>,
     \<lparr>auto_name = an, key_path = ''cfg.b.0'', value_kind = ''scalar'',
       value_scalar = SInt 2, value_obj_id = ''''\<rparr>,
     \<lparr>auto_name = an, key_path = ''cfg.b.1'', value_kind = ''scalar'',
       value_scalar = SInt 3, value_obj_id = ''''\<rparr>], pool)"
proof -
  have d0: "str_nat 0 = ''0''" by code_simp
  have d1: "str_nat (Suc 0) = ''1''" by code_simp
  show ?thesis
    by (simp add: emit_scalar_def short_scalar_def child_path_def d0 d1)
qed
section \<open>Truncation of scalar values\<close>

lemma short_str_short_scalar: "short_str (short_scalar s 80)"
  by (cases s) (auto simp: short_str_def short_scalar_def slice_to_def)

lemma flatten_rows_invariant:
  fixes \<Phi> :: "config_entry \<Rightarrow> bool"
  assumes sc: "\<And>an s kp. \<Phi> \<lparr>auto_name = an, key_path = kp, value_kind = ''scalar'',
                 value_scalar = short_scalar s 80, value_obj_id = ''''\<rparr>"
      and ob: "\<And>an oid kp. \<Phi> \<lparr>auto_name = an, key_path = kp, value_kind = ''object'',
                      value_scalar = SStr '''', value_obj_id = oid\<rparr>"
  shows "(\<forall>e\<in>set (fst st). \<Phi> e) \<Longrightarrow> (\<forall>e\<in>set (fst (flatten_config H an v kp st)). \<Phi> e)"
    and "(\<forall>e\<in>set (fst st). \<Phi> e) \<Longrightarrow> (\<forall>e\<in>set (fst (flatten_items H an items kp st)). \<Phi> e)"
    and "(\<forall>e\<in>set (fst st). \<Phi> e) \<Longrightarrow> (\<forall>e\<in>set (fst (flatten_elems H an i xs kp st)). \<Phi> e)"
proof (induction H an v kp st and H an items kp st and H an i xs kp st
       rule: flatten_config_flatten_items_flatten_elems.induct)
  case (1 H an items kp st)
  then show ?case by simp
next
  case (2 H an xs kp st)
  then show ?case by simp
next
  case (3 H an xs kp st)
  then show ?case by simp
next
  case (4 H an s kp st)
  then show ?case using sc by (auto simp: emit_scalar_def)
next
  case (5 H an x kp st)
  then show ?case using ob by (auto simp: emit_object_def Let_def)
next
  case (6 H an kp st)
  then show ?case by simp
next
  case (7 H an k v rest kp st)
  then show ?case by simp
next
  case (8 H an i kp st)
  then show ?case by simp
next
  case (9 H an i v rest kp st)
  then show ?case by simp
qed

lemma short_scalar_str_eq:
  "short_scalar (SStr t) 80 = SStr (if length t \<le> 80 then t else take 77 t @ ''...'')"
  by (simp add: short_scalar_def slice_to_def)

lemma truncated_length: "length (if length t \<le> 80 then t else take 77 t @ ''...'') \<le> 80"
  by simp

lemma short_scalar_other:
  "short_scalar SNone 80 = SNone" "short_scalar (SBool b) 80 = SBool b"
  "short_scalar (SInt i) 80 = SInt i" "short_scalar (SFloat f) 80 = SFloat f"
  by (simp_all add: short_scalar_def)

lemma flatten_rows_short_str:
  "\<forall>e\<in>set (fst (flatten_config H an v kp ([], pool))). short_str (value_scalar e)"
proof -
  have sc: "\<And>an s kp. short_str (value_scalar \<lparr>auto_name = an, key_path = kp,
      value_kind = ''scalar'', value_scalar = short_scalar s 80, value_obj_id = ''''\<rparr>)"
    by (simp add: short_str_short_scalar)
  have ob: "\<And>an oid kp. short_str (value_scalar \<lparr>auto_name = an, key_path = kp,
      value_kind = ''object'', value_scalar = SStr '''', value_obj_id = oid\<rparr>)"
    by (simp add: short_str_def)
  have init: "\<forall>e\<in>set (fst (([], pool) :: flat_state)). short_str (value_scalar e)"
    by simp
  show ?thesis
    by (rule flatten_rows_invariant(1) [where \<Phi> = "\<lambda>e. short_str (value_scalar e)", OF sc ob init])
qed

text \<open>
  C4, as the code has it. \<open>short_scalar\<close> shortens strings only: a string of more than 80
  characters is stored as its first 77 characters followed by \<open>...\<close>, a string of at most
  80 characters and every \<open>None\<close>, bool, int and float is stored as it is. So in every
  entry that \<open>flatten_config\<close> emits, for a value of any shape, a stored string has at
  most 80 characters.
\<close>

theorem flatten_config_strings_truncated:
  "(\<forall>e\<in>set (fst (flatten_config H an v kp ([], pool))). short_str (value_scalar e))
   \<and> short_scalar (SStr t) 80 = SStr (if length t \<le> 80 then t else take 77 t @ ''...'')
   \<and> length (if length t \<le> 80 then t else take 77 t @ ''...'') \<le> 80
   \<and> short_scalar SNone 80 = SNone
   \<and> short_scalar (SBool b) 80 = SBool b
   \<and> short_scalar (SInt i) 80 = SInt i
   \<and> short_scalar (SFloat f) 80 = SFloat f"
  by (intro conjI flatten_rows_short_str short_scalar_str_eq truncated_length short_scalar_other)

theorem flatten_config_strings_truncated_witness:
  "value_scalar (hd (fst (flatten_config (\<lambda>bs. []) ''AutoX''
       (PList [PScalar (SStr (replicate 100 (CHR ''a'')))]) ''cfg'' ([], Map.empty))))
     = SStr (replicate 77 (CHR ''a'') @ ''...'')
   \<and> length (replicate 77 (CHR ''a'') @ ''...'') \<le> 80"
proof -
  note t = flatten_config_strings_truncated
    [of "\<lambda>bs. []" "''AutoX''" "PList [PScalar (SStr (replicate 100 (CHR ''a'')))]" "''cfg''"
        Map.empty "replicate 100 (CHR ''a'')" True 0 0]
  from t have eq: "short_scalar (SStr (replicate 100 (CHR ''a''))) 80
      = SStr (replicate 77 (CHR ''a'') @ ''...'')"
    by simp
  show ?thesis
    by (simp add: emit_scalar_def eq)
qed

lemma flatten_config_int_stored:
  "value_scalar (last (fst (flatten_config H an (PScalar (SInt n)) kp ([], pool)))) = SInt n"
  by (simp add: emit_scalar_def short_scalar_def)

lemma scalar_str_int: "scalar_str fr (SInt n) = str_int n"
  by (simp add: scalar_str_def)

lemma str_nat_length: "10 ^ k \<le> n \<Longrightarrow> k < length (str_nat n)"
proof (induction k arbitrary: n)
  case 0
  show ?case by (subst str_nat.simps) simp
next
  case (Suc k)
  have pos: "(1::nat) \<le> 10 ^ k" by simp
  from Suc.prems have m: "10 * 10 ^ k \<le> n" by simp
  from pos m have big: "\<not> n < 10" by linarith
  from m have "10 ^ k \<le> n div 10" by (simp add: less_eq_div_iff_mult_less_eq mult.commute)
  from Suc.IH [OF this] have "k < length (str_nat (n div 10))" .
  then show ?case using big by (subst str_nat.simps) simp
qed

text \<open>
  C4 as it is written fails on an integer: \<open>10 ^ 80\<close> has 81 digits and is stored as it is.
\<close>

theorem short_scalar_int_counterexample:
  "\<not> length (scalar_str (\<lambda>f. [])
        (value_scalar (last (fst (flatten_config (\<lambda>bs. []) ''AutoX''
           (PScalar (SInt (10 ^ 80))) ''cfg'' ([], Map.empty)))))) \<le> 80"
proof -
  have "(10::nat) ^ 80 \<le> nat (10 ^ 80)" by (simp only: nat_power_eq) simp
  then have "80 < length (str_nat (nat (10 ^ 80)))" by (rule str_nat_length)
  moreover have "str_int (10 ^ 80) = str_nat (nat (10 ^ 80))"
    unfolding str_int_def by simp
  ultimately have l: "80 < length (str_int (10 ^ 80))" by (simp only:)
  show ?thesis
    unfolding flatten_config_int_stored scalar_str_int using l by (simp only: not_le)
qed

section \<open>Object identifiers and the pool\<close>

lemma emit_object_pool:
  assumes "same_rendering x y"
      and "snd st = pool \<or> snd st = pool(object_id H x \<mapsto> pool_record H x)"
  shows "snd (emit_object H an y kp st) = pool
       \<or> snd (emit_object H an y kp st) = pool(object_id H x \<mapsto> pool_record H x)"
  using assms
  by (auto simp: emit_object_def Let_def pool_record_def same_rendering_def object_id_def)

lemma flatten_pool_one_record:
  fixes pool :: object_pool
  shows "(\<forall>y\<in>set (objects_of v). same_rendering x y) \<Longrightarrow>
         snd st = pool \<or> snd st = pool(object_id H x \<mapsto> pool_record H x) \<Longrightarrow>
         snd (flatten_config H an v kp st) = pool
       \<or> snd (flatten_config H an v kp st) = pool(object_id H x \<mapsto> pool_record H x)"
    and "(\<forall>y\<in>set (objects_of_items items). same_rendering x y) \<Longrightarrow>
         snd st = pool \<or> snd st = pool(object_id H x \<mapsto> pool_record H x) \<Longrightarrow>
         snd (flatten_items H an items kp st) = pool
       \<or> snd (flatten_items H an items kp st) = pool(object_id H x \<mapsto> pool_record H x)"
    and "(\<forall>y\<in>set (objects_of_elems xs). same_rendering x y) \<Longrightarrow>
         snd st = pool \<or> snd st = pool(object_id H x \<mapsto> pool_record H x) \<Longrightarrow>
         snd (flatten_elems H an i xs kp st) = pool
       \<or> snd (flatten_elems H an i xs kp st) = pool(object_id H x \<mapsto> pool_record H x)"
proof (induction H an v kp st and H an items kp st and H an i xs kp st
       rule: flatten_config_flatten_items_flatten_elems.induct)
  case (1 H an items kp st)
  then show ?case by simp
next
  case (2 H an xs kp st)
  then show ?case by simp
next
  case (3 H an xs kp st)
  then show ?case by simp
next
  case (4 H an s kp st)
  then show ?case by (simp add: emit_scalar_def)
next
  case (5 H an y kp st)
  from "5.prems" have r: "same_rendering x y" by simp
  show ?case unfolding flatten_config.simps
    by (rule emit_object_pool [OF r "5.prems"(2)])
next
  case (6 H an kp st)
  then show ?case by simp
next
  case (7 H an k v rest kp st)
  from "7.prems" have a: "\<forall>y\<in>set (objects_of v). same_rendering x y"
    and b: "\<forall>y\<in>set (objects_of_items rest). same_rendering x y" by simp_all
  from "7.IH"(1) [OF a "7.prems"(2)] have
    "snd (flatten_config H an v (child_path kp (key_str k)) st) = pool
     \<or> snd (flatten_config H an v (child_path kp (key_str k)) st)
         = pool(object_id H x \<mapsto> pool_record H x)" .
  from "7.IH"(2) [OF b this] show ?case by simp
next
  case (8 H an i kp st)
  then show ?case by simp
next
  case (9 H an i v rest kp st)
  from "9.prems" have a: "\<forall>y\<in>set (objects_of v). same_rendering x y"
    and b: "\<forall>y\<in>set (objects_of_elems rest). same_rendering x y" by simp_all
  from "9.IH"(1) [OF a "9.prems"(2)] have
    "snd (flatten_config H an v (child_path kp (str_nat i)) st) = pool
     \<or> snd (flatten_config H an v (child_path kp (str_nat i)) st)
         = pool(object_id H x \<mapsto> pool_record H x)" .
  from "9.IH"(2) [OF b this] show ?case by simp
qed

text \<open>
  Two digests, computed by the definition: of \<open><class 'Foo'>|<Foo object at 0xADDR>\<close>
  and of the same text without the separator.
\<close>

lemma replicate_numeral: "replicate (numeral k) x = x # replicate (pred_numeral k) x"
  by (simp add: numeral_eq_Suc)

lemma digest_with_separator:
  "sha1_hexdigest (utf8_encode ''<class 'Foo'>|<Foo object at 0xADDR>'') = ''5773de3dadfa817a77d04cd9ffa2696a053a94c5''"
proof -
  have block: "be_words (sha1_pad (utf8_encode ''<class 'Foo'>|<Foo object at 0xADDR>''))
    = [1013148769, 1936924711, 1181708071, 1048329286, 1869553775, 1651139939,
       1948279156, 540047425, 1145328190, 2147483648, 0, 0,
       0, 0, 0, 288]"
    by (simp add: utf8_encode_def utf8_char_def sha1_pad_def length_bytes_def replicate_numeral)
  have one: "sha1_blocks h
      [1013148769, 1936924711, 1181708071, 1048329286, 1869553775, 1651139939,
       1948279156, 540047425, 1145328190, 2147483648, 0, 0,
       0, 0, 0, 288]
    = sha1_block h
      [1013148769, 1936924711, 1181708071, 1048329286, 1869553775, 1651139939,
       1948279156, 540047425, 1145328190, 2147483648, 0, 0,
       0, 0, 0, 288]" for h
    by (subst sha1_blocks.simps, simp, subst sha1_blocks.simps, simp)
  have schedule: "sha1_schedule
      [1013148769, 1936924711, 1181708071, 1048329286, 1869553775, 1651139939,
       1948279156, 540047425, 1145328190, 2147483648, 0, 0,
       0, 0, 0, 288]
    = [1013148769, 1936924711, 1181708071, 1048329286, 1869553775, 1651139939,
       1948279156, 540047425, 1145328190, 2147483648, 0, 0,
       0, 0, 0, 288, 2089853680, 2585671875,
       1375771856, 1091434410, 44233649, 548733924, 3805514176, 1160058273,
       818144852, 4053492231, 776671970, 3818660860, 3866305389, 503062604,
       4223537560, 1922047582, 123727984, 2725083629, 418564026, 183914373,
       1222525411, 3242058598, 1185964818, 501239863, 2983579457, 3988043273,
       2589281285, 2324104936, 1901038143, 1745429218, 1638729764, 2024110967,
       2363733203, 1225068682, 1706648151, 2606644657, 1816752264, 2732320713,
       455947148, 3379682179, 191996092, 1781999566, 2409955292, 3846402574,
       758753978, 2074510080, 641858282, 2882549129, 857467505, 1012654143,
       1527361812, 3753542671, 3423343362, 2517245116, 3545226155, 2301998477,
       1133073242, 3233864872, 3779240958, 95177910, 258555892, 1316754327,
       2272464653, 598654878]"
    by (simp add: sha1_schedule.simps rotl32_def)
  have rounds: "sha1_rounds 0
      [1013148769, 1936924711, 1181708071, 1048329286, 1869553775, 1651139939,
       1948279156, 540047425, 1145328190, 2147483648, 0, 0,
       0, 0, 0, 288, 2089853680, 2585671875,
       1375771856, 1091434410, 44233649, 548733924, 3805514176, 1160058273,
       818144852, 4053492231, 776671970, 3818660860, 3866305389, 503062604,
       4223537560, 1922047582, 123727984, 2725083629, 418564026, 183914373,
       1222525411, 3242058598, 1185964818, 501239863, 2983579457, 3988043273,
       2589281285, 2324104936, 1901038143, 1745429218, 1638729764, 2024110967,
       2363733203, 1225068682, 1706648151, 2606644657, 1816752264, 2732320713,
       455947148, 3379682179, 191996092, 1781999566, 2409955292, 3846402574,
       758753978, 2074510080, 641858282, 2882549129, 857467505, 1012654143,
       1527361812, 3753542671, 3423343362, 2517245116, 3545226155, 2301998477,
       1133073242, 3233864872, 3779240958, 95177910, 258555892, 1316754327,
       2272464653, 598654878]
      (0x67452301, 0xEFCDAB89, 0x98BADCFE, 0x10325476, 0xC3D2E1F0)
    = (4029594428, 3190609393, 3742724059, 4017100020, 1097315029)"
    by (simp add: rotl32_def sha1_f_def sha1_k_def)
  show ?thesis
    unfolding sha1_hexdigest_def block one sha1_block_def schedule rounds
    by (simp add: hex32_def hex_char_def)
qed

lemma digest_without_separator:
  "sha1_hexdigest (utf8_encode ''<class 'Foo'><Foo object at 0xADDR>'') = ''d077f6e8b0d395eb30cec87887e66404375d2a4d''"
proof -
  have block: "be_words (sha1_pad (utf8_encode ''<class 'Foo'><Foo object at 0xADDR>''))
    = [1013148769, 1936924711, 1181708071, 1044137583, 1864396642, 1785029492,
       543257632, 813187396, 1146240640, 0, 0, 0,
       0, 0, 0, 280]"
    by (simp add: utf8_encode_def utf8_char_def sha1_pad_def length_bytes_def replicate_numeral)
  have one: "sha1_blocks h
      [1013148769, 1936924711, 1181708071, 1044137583, 1864396642, 1785029492,
       543257632, 813187396, 1146240640, 0, 0, 0,
       0, 0, 0, 280]
    = sha1_block h
      [1013148769, 1936924711, 1181708071, 1044137583, 1864396642, 1785029492,
       543257632, 813187396, 1146240640, 0, 0, 0,
       0, 0, 0, 280]" for h
    by (subst sha1_blocks.simps, simp, subst sha1_blocks.simps, simp)
  have schedule: "sha1_schedule
      [1013148769, 1936924711, 1181708071, 1044137583, 1864396642, 1785029492,
       543257632, 813187396, 1146240640, 0, 0, 0,
       0, 0, 0, 280]
    = [1013148769, 1936924711, 1181708071, 1044137583, 1864396642, 1785029492,
       543257632, 813187396, 1146240640, 0, 0, 0,
       0, 0, 0, 280, 2092727180, 2594098320,
       1386087098, 1372241198, 2881466277, 285622548, 1811148572, 932175859,
       1406142512, 3805955865, 3391339154, 70609468, 2462830968, 3058431293,
       653655384, 2142602758, 2540898423, 519542782, 2574197526, 2803186915,
       2564820094, 324702616, 1938181423, 1677731108, 1001674394, 389935081,
       1259264945, 1572858608, 2009571182, 592736805, 1065264609, 3842725732,
       771235772, 591643179, 1595230075, 2282795119, 2143565865, 372704196,
       4273478775, 3555019521, 2531992230, 787723915, 1618121035, 3223327800,
       857565274, 1614114717, 1480418340, 1298230312, 140913657, 3141222871,
       461702242, 2898467028, 313793446, 2093237877, 962233411, 1166480393,
       74955971, 3647262286, 450614004, 289652580, 1105310509, 2526490216,
       4035242484, 3833140663]"
    by (simp add: sha1_schedule.simps rotl32_def)
  have rounds: "sha1_rounds 0
      [1013148769, 1936924711, 1181708071, 1044137583, 1864396642, 1785029492,
       543257632, 813187396, 1146240640, 0, 0, 0,
       0, 0, 0, 280, 2092727180, 2594098320,
       1386087098, 1372241198, 2881466277, 285622548, 1811148572, 932175859,
       1406142512, 3805955865, 3391339154, 70609468, 2462830968, 3058431293,
       653655384, 2142602758, 2540898423, 519542782, 2574197526, 2803186915,
       2564820094, 324702616, 1938181423, 1677731108, 1001674394, 389935081,
       1259264945, 1572858608, 2009571182, 592736805, 1065264609, 3842725732,
       771235772, 591643179, 1595230075, 2282795119, 2143565865, 372704196,
       4273478775, 3555019521, 2531992230, 787723915, 1618121035, 3223327800,
       857565274, 1614114717, 1480418340, 1298230312, 140913657, 3141222871,
       461702242, 2898467028, 313793446, 2093237877, 962233411, 1166480393,
       74955971, 3647262286, 450614004, 289652580, 1105310509, 2526490216,
       4035242484, 3833140663]
      (0x67452301, 0xEFCDAB89, 0x98BADCFE, 0x10325476, 0xC3D2E1F0)
    = (1764938727, 3238390370, 2551442298, 2008289166, 1938442333)"
    by (simp add: rotl32_def sha1_f_def sha1_k_def)
  show ?thesis
    unfolding sha1_hexdigest_def block one sha1_block_def schedule rounds
    by (simp add: hex32_def hex_char_def)
qed


lemma sha1_hexdigest_length: "length (sha1_hexdigest bs) = 40"
  by (simp add: sha1_hexdigest_def hex32_def split: prod.splits)

lemma stable_repr_example:
  "stable_repr \<lparr>obj_ident = i, obj_type = ''<class 'Foo'>'', obj_repr = ''<Foo object at 0x7f01>''\<rparr>
     = ''<Foo object at 0xADDR>''"
  "stable_repr \<lparr>obj_ident = i, obj_type = ''<class 'Foo'>'', obj_repr = ''<Foo object at 0x7f02>''\<rparr>
     = ''<Foo object at 0xADDR>''"
  by (simp_all add: stable_repr_def is_hex_digit_def)

lemma object_id_example:
  "object_id sha1_hexdigest
     \<lparr>obj_ident = i, obj_type = ''<class 'Foo'>'', obj_repr = ''<Foo object at 0x7f01>''\<rparr>
   = ''5773de3dadfa''"
  "object_id sha1_hexdigest
     \<lparr>obj_ident = i, obj_type = ''<class 'Foo'>'', obj_repr = ''<Foo object at 0x7f02>''\<rparr>
   = ''5773de3dadfa''"
  by (simp_all add: object_id_def stable_repr_example digest_with_separator)

text \<open>
  C1, as the code has it. Two opaque values of the same declared type whose stable
  representations are equal have the same \<open>object_id\<close>. The identifier is the first 12
  characters of the SHA-1 hexadecimal digest of the UTF-8 bytes of three parts in a row:
  the declared type, the separator \<open>|\<close>, and the stable representation. Hence flattening
  a value of any shape, all of whose opaque leaves render as \<open>x\<close> does, returns either
  the pool it was given or that pool with the one ObjectRecord of \<open>x\<close> added.
\<close>

theorem object_id_dedup:
  "(same_rendering x y \<longrightarrow> object_id sha1_hexdigest y = object_id sha1_hexdigest x)
   \<and> object_id sha1_hexdigest x
       = take 12 (sha1_hexdigest (utf8_encode (obj_type x @ ''|'' @ stable_repr x)))
   \<and> length (object_id sha1_hexdigest x) = 12
   \<and> ((\<forall>y\<in>set (objects_of v). same_rendering x y) \<longrightarrow>
        snd (flatten_config sha1_hexdigest an v kp (rows, pool)) = pool
      \<or> snd (flatten_config sha1_hexdigest an v kp (rows, pool))
           = pool(object_id sha1_hexdigest x \<mapsto>
               \<lparr>obj_id = object_id sha1_hexdigest x, py_type = obj_type x,
                repr_text = stable_repr x\<rparr>))"
proof -
  have id_eq: "same_rendering x y \<longrightarrow> object_id sha1_hexdigest y = object_id sha1_hexdigest x"
    by (simp add: same_rendering_def object_id_def)
  have id_def: "object_id sha1_hexdigest x
      = take 12 (sha1_hexdigest (utf8_encode (obj_type x @ ''|'' @ stable_repr x)))"
    by (simp add: object_id_def)
  have id_len: "length (object_id sha1_hexdigest x) = 12"
    by (simp add: object_id_def sha1_hexdigest_length)
  have one: "(\<forall>y\<in>set (objects_of v). same_rendering x y) \<longrightarrow>
        snd (flatten_config sha1_hexdigest an v kp (rows, pool)) = pool
      \<or> snd (flatten_config sha1_hexdigest an v kp (rows, pool))
           = pool(object_id sha1_hexdigest x \<mapsto>
               \<lparr>obj_id = object_id sha1_hexdigest x, py_type = obj_type x,
                repr_text = stable_repr x\<rparr>)"
  proof (intro impI)
    assume a: "\<forall>y\<in>set (objects_of v). same_rendering x y"
    have b: "snd (rows, pool) = pool
        \<or> snd (rows, pool) = pool(object_id sha1_hexdigest x \<mapsto> pool_record sha1_hexdigest x)"
      by simp
    from flatten_pool_one_record(1) [OF a b]
    show "snd (flatten_config sha1_hexdigest an v kp (rows, pool)) = pool
      \<or> snd (flatten_config sha1_hexdigest an v kp (rows, pool))
           = pool(object_id sha1_hexdigest x \<mapsto>
               \<lparr>obj_id = object_id sha1_hexdigest x, py_type = obj_type x,
                repr_text = stable_repr x\<rparr>)"
      unfolding pool_record_def .
  qed
  from id_eq id_def id_len one show ?thesis by (intro conjI)
qed

theorem object_id_dedup_witness:
  "same_rendering
     \<lparr>obj_ident = 1, obj_type = ''<class 'Foo'>'', obj_repr = ''<Foo object at 0x7f01>''\<rparr>
     \<lparr>obj_ident = 2, obj_type = ''<class 'Foo'>'', obj_repr = ''<Foo object at 0x7f02>''\<rparr>
   \<and> object_id sha1_hexdigest
       \<lparr>obj_ident = 1, obj_type = ''<class 'Foo'>'', obj_repr = ''<Foo object at 0x7f01>''\<rparr>
     = ''5773de3dadfa''
   \<and> object_id sha1_hexdigest
       \<lparr>obj_ident = 2, obj_type = ''<class 'Foo'>'', obj_repr = ''<Foo object at 0x7f02>''\<rparr>
     = ''5773de3dadfa''
   \<and> snd (flatten_config sha1_hexdigest ''AutoX''
          (PList [PObject \<lparr>obj_ident = 1, obj_type = ''<class 'Foo'>'',
                           obj_repr = ''<Foo object at 0x7f01>''\<rparr>,
                  PObject \<lparr>obj_ident = 2, obj_type = ''<class 'Foo'>'',
                           obj_repr = ''<Foo object at 0x7f02>''\<rparr>])
          ''cfg'' ([], Map.empty))
     = [''5773de3dadfa'' \<mapsto> \<lparr>obj_id = ''5773de3dadfa'', py_type = ''<class 'Foo'>'',
                                 repr_text = ''<Foo object at 0xADDR>''\<rparr>]"
proof -
  let ?x = "\<lparr>obj_ident = 1, obj_type = ''<class 'Foo'>'', obj_repr = ''<Foo object at 0x7f01>''\<rparr>"
  let ?y = "\<lparr>obj_ident = 2, obj_type = ''<class 'Foo'>'', obj_repr = ''<Foo object at 0x7f02>''\<rparr>"
  have r: "same_rendering ?x ?y"
    by (simp add: same_rendering_def stable_repr_example)
  have ox: "object_id sha1_hexdigest ?x = ''5773de3dadfa''"
    by (rule object_id_example(1))
  note t = object_id_dedup [of ?x ?y "PList [PObject ?x, PObject ?y]" "''AutoX''" "''cfg''" "[]" Map.empty]
  from t r have "object_id sha1_hexdigest ?y = object_id sha1_hexdigest ?x"
    by blast
  with ox have oy: "object_id sha1_hexdigest ?y = ''5773de3dadfa''"
    by simp
  have pool: "snd (flatten_config sha1_hexdigest ''AutoX'' (PList [PObject ?x, PObject ?y])
        ''cfg'' ([], Map.empty))
     = [''5773de3dadfa'' \<mapsto> \<lparr>obj_id = ''5773de3dadfa'', py_type = ''<class 'Foo'>'',
                                 repr_text = ''<Foo object at 0xADDR>''\<rparr>]"
    by (simp add: emit_object_def Let_def object_id_example stable_repr_example)
  from r ox oy pool show ?thesis by (intro conjI)
qed

text \<open>
  C1 as it is written fails: the digest of the type directly followed by the stable
  representation, without the separator, gives another identifier.
\<close>

theorem object_id_separator_counterexample:
  "object_id sha1_hexdigest
     \<lparr>obj_ident = 1, obj_type = ''<class 'Foo'>'', obj_repr = ''<Foo object at 0x7f01>''\<rparr>
   \<noteq> take 12 (sha1_hexdigest (utf8_encode
       (obj_type \<lparr>obj_ident = 1, obj_type = ''<class 'Foo'>'',
                  obj_repr = ''<Foo object at 0x7f01>''\<rparr>
        @ stable_repr \<lparr>obj_ident = 1, obj_type = ''<class 'Foo'>'',
                        obj_repr = ''<Foo object at 0x7f01>''\<rparr>)))"
  by (simp add: object_id_example stable_repr_example digest_without_separator)

section \<open>Deduplication of model rows and of parameter records\<close>

text \<open>The index of \<open>doc.splitlines()[0]\<close> is in range for every non-empty \<open>doc\<close>.\<close>

lemma splitlines_from_not_empty: "cur \<noteq> [] \<or> s \<noteq> [] \<Longrightarrow> splitlines_from cur s \<noteq> []"
  by (induction cur s rule: splitlines_from.induct) auto

lemma splitlines_not_empty: "s \<noteq> [] \<Longrightarrow> splitlines s \<noteq> []"
  by (simp add: splitlines_def splitlines_from_not_empty)

lemma first_line_in_range: "s \<noteq> [] \<Longrightarrow> first_line s = hd (splitlines s)"
  using splitlines_not_empty [of s] by (simp add: first_line_def split: list.splits)

lemma find_drop_duplicates_from:
  "find (\<lambda>r. key r = q) (drop_duplicates_from key seen rs)
     = (if q \<in> set seen then None else find (\<lambda>r. key r = q) rs)"
  by (induction rs arbitrary: seen) auto

lemma keys_drop_duplicates_from:
  "distinct (map key (drop_duplicates_from key seen rs))
   \<and> set (map key (drop_duplicates_from key seen rs)) \<inter> set seen = {}"
proof (induction rs arbitrary: seen)
  case Nil
  show ?case by simp
next
  case (Cons r rs)
  show ?case
  proof (cases "key r \<in> set seen")
    case True
    with Cons.IH [of seen] show ?thesis by simp
  next
    case False
    with Cons.IH [of "key r # seen"] show ?thesis by auto
  qed
qed

lemma find_key_unique:
  assumes "inj_on key (set xs)"
  shows "find (\<lambda>r. key r = q) xs = Some r \<longleftrightarrow> r \<in> set xs \<and> key r = q"
  using assms
proof (induction xs)
  case Nil
  show ?case by simp
next
  case (Cons x xs)
  then show ?case by (auto simp: inj_on_def)
qed

lemma find_key_same_set:
  assumes "inj_on key (set xs)" and "set ys = set xs"
  shows "find (\<lambda>r. key r = q) ys = find (\<lambda>r. key r = q) xs"
proof (cases "find (\<lambda>r. key r = q) xs")
  case None
  then have "\<not> (\<exists>r\<in>set xs. key r = q)" by (simp add: find_None_iff)
  with assms(2) have "find (\<lambda>r. key r = q) ys = None" by (simp add: find_None_iff)
  with None show ?thesis by simp
next
  case (Some r)
  with assms(1) have "r \<in> set xs \<and> key r = q" by (simp add: find_key_unique)
  moreover from assms have "inj_on key (set ys)" by simp
  ultimately have "find (\<lambda>r. key r = q) ys = Some r"
    using assms(2) by (simp add: find_key_unique)
  with Some show ?thesis by simp
qed

lemma find_sorted_drop_duplicates:
  "find (\<lambda>r. key r = q) (sort_key f (drop_duplicates key rows)) = find (\<lambda>r. key r = q) rows"
proof -
  have "distinct (map key (drop_duplicates key rows))"
    using keys_drop_duplicates_from [of key "[]" rows] by (simp add: drop_duplicates_def)
  then have "inj_on key (set (drop_duplicates key rows))"
    by (simp add: distinct_map)
  then have "find (\<lambda>r. key r = q) (sort_key f (drop_duplicates key rows))
      = find (\<lambda>r. key r = q) (drop_duplicates key rows)"
    by (rule find_key_same_set) simp
  also have "\<dots> = find (\<lambda>r. key r = q) rows"
    by (simp add: drop_duplicates_def find_drop_duplicates_from)
  finally show ?thesis .
qed

lemma collect_models_only_first:
  assumes "collect_models_only base_model mods = Inr (models_df, import_errors_df)"
  shows "find (\<lambda>r. qualname r = q) models_df
       = find (\<lambda>r. qualname r = q) (fst (collect_modules base_model mods))"
proof -
  obtain rows errors where c: "collect_modules base_model mods = (rows, errors)"
    by (cases "collect_modules base_model mods")
  with assms have "models_df = sort_key name (drop_duplicates qualname rows)"
    by (simp add: collect_models_only_def split: if_splits)
  then show ?thesis using c by (simp add: find_sorted_drop_duplicates)
qed

lemma params_master_visit_param:
  "params_master (visit_param H an np t) p =
     (case params_master t p of
        Some r \<Rightarrow> Some r
      | None \<Rightarrow> if fst np \<notin> set [''self'', ''args'', ''kwargs''] \<and> fst np = p
                then Some (param_record_of np) else None)"
  by (auto simp: visit_param_def Let_def param_record_of_def split: option.splits)

lemma params_master_fold_visit_param:
  "params_master (fold (visit_param H an) ps t) p =
     (case params_master t p of
        Some r \<Rightarrow> Some r
      | None \<Rightarrow> map_option param_record_of
          (find (\<lambda>np. fst np = p) (filter (\<lambda>np. fst np \<notin> set [''self'', ''args'', ''kwargs'']) ps)))"
proof (induction ps arbitrary: t)
  case Nil
  show ?case by (simp split: option.splits)
next
  case (Cons np ps)
  show ?case
    by (simp only: fold_simps Cons.IH params_master_visit_param)
       (auto split: option.splits)
qed

lemma find_app:
  "find P (xs @ ys) = (case find P xs of None \<Rightarrow> find P ys | Some x \<Rightarrow> Some x)"
  by (induction xs) simp_all

lemma params_master_visit_signature:
  "params_master (visit_signature H an sg t) p =
     (case params_master t p of
        Some r \<Rightarrow> Some r
      | None \<Rightarrow> map_option param_record_of
          (find (\<lambda>np. fst np = p)
             (case sg of None \<Rightarrow> []
              | Some ps \<Rightarrow> filter (\<lambda>np. fst np \<notin> set [''self'', ''args'', ''kwargs'']) ps)))"
  by (cases sg; cases "params_master t p")
     (simp_all add: visit_signature_def params_master_fold_visit_param)

lemma params_master_flatten_default_config:
  "params_master (flatten_default_config H an cfg t) = params_master t"
  by (simp add: flatten_default_config_def split: option.splits pyval.splits prod.splits)

lemma params_master_fold_visit_class:
  "params_master (fold (visit_class H) cs t) p =
     (case params_master t p of
        Some r \<Rightarrow> Some r
      | None \<Rightarrow> map_option param_record_of
          (find (\<lambda>np. fst np = p)
             (concat (map (\<lambda>c. case ac_signature c of None \<Rightarrow> []
                | Some ps \<Rightarrow> filter (\<lambda>np. fst np \<notin> set [''self'', ''args'', ''kwargs'']) ps) cs))))"
proof (induction cs arbitrary: t)
  case Nil
  show ?case by (simp split: option.splits)
next
  case (Cons c cs)
  have c: "params_master (visit_class H c t) p =
     (case params_master t p of
        Some r \<Rightarrow> Some r
      | None \<Rightarrow> map_option param_record_of
          (find (\<lambda>np. fst np = p)
             (case ac_signature c of None \<Rightarrow> []
              | Some ps \<Rightarrow> filter (\<lambda>np. fst np \<notin> set [''self'', ''args'', ''kwargs'']) ps)))"
    by (simp add: visit_class_def params_master_flatten_default_config
          params_master_visit_signature)
  show ?case
    by (cases "params_master t p")
       (simp_all add: Cons.IH c find_app split: option.splits)
qed

lemma build_tables_of_first:
  "params_master (build_tables_of H auto_classes) p
     = map_option param_record_of (find (\<lambda>np. fst np = p) (visited_params auto_classes))"
  by (simp add: build_tables_of_def visited_params_def params_master_fold_visit_class)

text \<open>
  C2, as the code has it. Both deduplications keep the first write. For every qualified
  name, the model row that survives \<open>drop_duplicates(subset=["qualname"])\<close> is the first
  row collected under that name (pandas' default \<open>keep="first"\<close>); for every parameter
  name, \<open>params_master\<close> holds the record (group and annotation) built at the first visit
  of a parameter of that name.
\<close>

theorem dedup_keeps_first:
  "(collect_models_only base_model mods = Inr (models_df, import_errors_df) \<longrightarrow>
      find (\<lambda>r. qualname r = q) models_df
        = find (\<lambda>r. qualname r = q) (fst (collect_modules base_model mods)))
   \<and> params_master (build_tables_of H auto_classes) p
       = map_option param_record_of (find (\<lambda>np. fst np = p) (visited_params auto_classes))"
  using collect_models_only_first [of base_model mods models_df import_errors_df q]
    build_tables_of_first [of H auto_classes p]
  by (intro conjI impI)

lemma collect_models_only_twice:
  "collect_models_only False
     [(''m'', Inr [(''A'', \<lparr>cls_module = ''m'', cls_doc = ''first'', cls_is_base_model = None\<rparr>)]),
      (''m'', Inr [(''A'', \<lparr>cls_module = ''m'', cls_doc = ''second'', cls_is_base_model = None\<rparr>)])]
   = Inr ([\<lparr>kind = ''model'', name = ''A'', module = ''m'', qualname = ''m.A'', doc = ''first''\<rparr>], [])"
  by (simp add: collect_models_only_def drop_duplicates_def startswith_def first_line_def
        splitlines_def is_line_break_def)

lemma collect_modules_twice:
  "fst (collect_modules False
     [(''m'', Inr [(''A'', \<lparr>cls_module = ''m'', cls_doc = ''first'', cls_is_base_model = None\<rparr>)]),
      (''m'', Inr [(''A'', \<lparr>cls_module = ''m'', cls_doc = ''second'', cls_is_base_model = None\<rparr>)])])
   = [\<lparr>kind = ''model'', name = ''A'', module = ''m'', qualname = ''m.A'', doc = ''first''\<rparr>,
      \<lparr>kind = ''model'', name = ''A'', module = ''m'', qualname = ''m.A'', doc = ''second''\<rparr>]"
  by (simp add: startswith_def first_line_def splitlines_def is_line_break_def)

theorem dedup_keeps_first_witness:
  "collect_models_only False
     [(''m'', Inr [(''A'', \<lparr>cls_module = ''m'', cls_doc = ''first'', cls_is_base_model = None\<rparr>)]),
      (''m'', Inr [(''A'', \<lparr>cls_module = ''m'', cls_doc = ''second'', cls_is_base_model = None\<rparr>)])]
   = Inr ([\<lparr>kind = ''model'', name = ''A'', module = ''m'', qualname = ''m.A'', doc = ''first''\<rparr>], [])
   \<and> find (\<lambda>r. qualname r = ''m.A'')
       (fst (collect_modules False
         [(''m'', Inr [(''A'', \<lparr>cls_module = ''m'', cls_doc = ''first'', cls_is_base_model = None\<rparr>)]),
          (''m'', Inr [(''A'', \<lparr>cls_module = ''m'', cls_doc = ''second'', cls_is_base_model = None\<rparr>)])]))
     = Some \<lparr>kind = ''model'', name = ''A'', module = ''m'', qualname = ''m.A'', doc = ''first''\<rparr>"
proof -
  note t = dedup_keeps_first
    [of False
      "[(''m'', Inr [(''A'', \<lparr>cls_module = ''m'', cls_doc = ''first'', cls_is_base_model = None\<rparr>)]),
        (''m'', Inr [(''A'', \<lparr>cls_module = ''m'', cls_doc = ''second'', cls_is_base_model = None\<rparr>)])]"
      "[\<lparr>kind = ''model'', name = ''A'', module = ''m'', qualname = ''m.A'', doc = ''first''\<rparr>]"
      "[]" "''m.A''" "\<lambda>bs. []" "[]" "''h''"]
  from t collect_models_only_twice
  have "find (\<lambda>r. qualname r = ''m.A'')
       (fst (collect_modules False
         [(''m'', Inr [(''A'', \<lparr>cls_module = ''m'', cls_doc = ''first'', cls_is_base_model = None\<rparr>)]),
          (''m'', Inr [(''A'', \<lparr>cls_module = ''m'', cls_doc = ''second'', cls_is_base_model = None\<rparr>)])]))
     = find (\<lambda>r. qualname r = ''m.A'')
         [\<lparr>kind = ''model'', name = ''A'', module = ''m'', qualname = ''m.A'', doc = ''first''\<rparr>]"
    by (elim conjE) (drule mp, assumption, rule sym)
  then show ?thesis
    using collect_models_only_twice by simp
qed

text \<open>
  C2 as it is written fails for the model rows: of two rows written under the qualified
  name \<open>m.A\<close>, the one that is kept is the first, not the last.
\<close>

theorem dedup_last_write_counterexample:
  "fst (collect_modules False
     [(''m'', Inr [(''A'', \<lparr>cls_module = ''m'', cls_doc = ''first'', cls_is_base_model = None\<rparr>)]),
      (''m'', Inr [(''A'', \<lparr>cls_module = ''m'', cls_doc = ''second'', cls_is_base_model = None\<rparr>)])])
   = [\<lparr>kind = ''model'', name = ''A'', module = ''m'', qualname = ''m.A'', doc = ''first''\<rparr>,
      \<lparr>kind = ''model'', name = ''A'', module = ''m'', qualname = ''m.A'', doc = ''second''\<rparr>]
   \<and> collect_models_only False
     [(''m'', Inr [(''A'', \<lparr>cls_module = ''m'', cls_doc = ''first'', cls_is_base_model = None\<rparr>)]),
      (''m'', Inr [(''A'', \<lparr>cls_module = ''m'', cls_doc = ''second'', cls_is_base_model = None\<rparr>)])]
   = Inr ([\<lparr>kind = ''model'', name = ''A'', module = ''m'', qualname = ''m.A'', doc = ''first''\<rparr>], [])
   \<and> collect_models_only False
     [(''m'', Inr [(''A'', \<lparr>cls_module = ''m'', cls_doc = ''first'', cls_is_base_model = None\<rparr>)]),
      (''m'', Inr [(''A'', \<lparr>cls_module = ''m'', cls_doc = ''second'', cls_is_base_model = None\<rparr>)])]
   \<noteq> Inr ([\<lparr>kind = ''model'', name = ''A'', module = ''m'', qualname = ''m.A'', doc = ''second''\<rparr>], [])"
  unfolding collect_models_only_twice collect_modules_twice by simp
section \<open>The web cache\<close>

lemma ancestors_length: "a \<in> set (ancestors d) \<Longrightarrow> length a \<le> length d"
  by (auto simp: ancestors_def)

lemma mkdir_parents_hit:
  assumes "fs_ok w" and "files w p = Some t"
  shows "mkdir_parents (butlast p) w = Inr w"
proof -
  from assms have sub: "set (ancestors (butlast p)) \<subseteq> dirs w"
    by (simp add: fs_ok_def)
  have "\<not> list_ex (\<lambda>a. files w a \<noteq> None) (ancestors (butlast p))"
  proof
    assume "list_ex (\<lambda>a. files w a \<noteq> None) (ancestors (butlast p))"
    then obtain a where a: "a \<in> set (ancestors (butlast p))" "files w a \<noteq> None"
      by (auto simp: list_ex_iff)
    from a(1) sub have "a \<in> dirs w" by blast
    moreover from a(2) assms(1) have "a \<notin> dirs w" by (simp add: fs_ok_def)
    ultimately show False by simp
  qed
  moreover from sub have "dirs w \<union> set (ancestors (butlast p)) = dirs w" by blast
  ultimately show ?thesis by (simp add: mkdir_parents_def)
qed

lemma fetch_and_cache_hit:
  assumes "fs_ok w" and "files w (resolve cache_path) = Some t" and "\<not> force"
  shows "fetch_and_cache resolve http_get url cache_path timeout force w = (Inr t, w)"
  using assms mkdir_parents_hit [OF assms(1,2)]
  by (simp add: fetch_and_cache_def path_exists_def read_text_def)

text \<open>
  C7. When a regular file exists at the resolved \<open>cache_path\<close> and \<open>force\<close> is false,
  \<open>fetch_and_cache\<close> returns the text of that file and leaves the world as it was: no
  file is changed and no request is issued, whatever the URL. A second call therefore
  returns the same text, again without a request.
\<close>

theorem fetch_and_cache_cached:
  assumes "fs_ok w" and "files w (resolve cache_path) = Some t" and "\<not> force"
  shows "fetch_and_cache resolve http_get url cache_path timeout force w = (Inr t, w)
       \<and> requests (snd (fetch_and_cache resolve http_get url cache_path timeout force w)) = requests w
       \<and> fetch_and_cache resolve http_get url cache_path timeout force
            (snd (fetch_and_cache resolve http_get url cache_path timeout force w)) = (Inr t, w)"
  using assms by (simp add: fetch_and_cache_hit)

lemma mkdir_parents_files:
  "mkdir_parents d w = Inr w1 \<Longrightarrow> files w1 = files w \<and> requests w1 = requests w"
  by (auto simp: mkdir_parents_def split: if_splits)

text \<open>
  C10. On a cache miss (no file at the resolved \<open>cache_path\<close>, or \<open>force\<close> true), when the
  GET is answered with a status that \<open>raise_for_status\<close> rejects (400 to 599),
  \<open>fetch_and_cache\<close> raises and the files are what they were: nothing is written at
  \<open>cache_path\<close>. Where the parent directory could be created and \<open>cache_path\<close> is not a
  directory, the exception is the HTTP error of that status, after one request.
\<close>

theorem fetch_and_cache_http_error:
  assumes "files w (resolve cache_path) = None \<or> force"
      and "http_get url timeout = Response status body"
      and "400 \<le> status" and "status < 600"
  shows "isl (fst (fetch_and_cache resolve http_get url cache_path timeout force w))
       \<and> files (snd (fetch_and_cache resolve http_get url cache_path timeout force w)) = files w
       \<and> (fs_ok w \<and> (resolve cache_path \<notin> dirs w \<or> force) \<and>
            mkdir_parents (butlast (resolve cache_path)) w \<noteq> Inl MkdirFileExists \<longrightarrow>
          fst (fetch_and_cache resolve http_get url cache_path timeout force w)
            = Inl (HTTPStatusError status)
          \<and> requests (snd (fetch_and_cache resolve http_get url cache_path timeout force w))
            = requests w @ [(url, timeout)])"
proof (cases "mkdir_parents (butlast (resolve cache_path)) w")
  case (Inl e)
  then have "e = MkdirFileExists" by (auto simp: mkdir_parents_def split: if_splits)
  with Inl show ?thesis by (simp add: fetch_and_cache_def)
next
  case (Inr w1)
  from mkdir_parents_files [OF Inr] have f: "files w1 = files w" and r: "requests w1 = requests w"
    by simp_all
  from Inr have d: "dirs w1 = dirs w \<union> set (ancestors (butlast (resolve cache_path)))"
    by (auto simp: mkdir_parents_def split: if_splits)
  show ?thesis
  proof (cases "path_exists (resolve cache_path) w1 \<and> \<not> force")
    case True
    with assms(1) f have nofile: "files w1 (resolve cache_path) = None" by auto
    from True have nf: "\<not> force" by simp
    from True nofile have indir: "resolve cache_path \<in> dirs w1" by (simp add: path_exists_def)
    have "fst (fetch_and_cache resolve http_get url cache_path timeout force w) = Inl IsADirectory"
      using Inr True nofile by (simp add: fetch_and_cache_def read_text_def)
    moreover have "snd (fetch_and_cache resolve http_get url cache_path timeout force w) = w1"
      using Inr True by (simp add: fetch_and_cache_def)
    moreover have "fs_ok w \<and> (resolve cache_path \<notin> dirs w \<or> force) \<longrightarrow> False"
    proof
      assume a: "fs_ok w \<and> (resolve cache_path \<notin> dirs w \<or> force)"
      with nf have "resolve cache_path \<notin> dirs w" by simp
      with indir d have "resolve cache_path \<in> set (ancestors (butlast (resolve cache_path)))"
        by simp
      then have "length (resolve cache_path) \<le> length (butlast (resolve cache_path))"
        by (rule ancestors_length)
      then have "length (resolve cache_path) = 0" unfolding length_butlast by arith
      then have "resolve cache_path = []" by simp
      moreover from a have "[] \<in> dirs w" by (simp add: fs_ok_def)
      ultimately show False using \<open>resolve cache_path \<notin> dirs w\<close> by simp
    qed
    ultimately show ?thesis using f by auto
  next
    case False
    then have c: "(path_exists (resolve cache_path) w1 \<and> \<not> force) = False" by simp
    show ?thesis
      using Inr assms(2,3,4) f r
      by (simp add: fetch_and_cache_def Let_def raise_for_status_def c)
  qed
qed

lemma fs_ok_example:
  "fs_ok \<lparr>files = [[''cache'', ''models.html''] \<mapsto> ''<html>''],
          dirs = {[], [''cache'']}, requests = []\<rparr>"
  by (auto simp: fs_ok_def ancestors_def)

theorem fetch_and_cache_cached_witness:
  "fetch_and_cache (\<lambda>s. [''cache'', ''models.html'']) (\<lambda>u n. RequestFailed)
     ''https://nixtlaverse.nixtla.io/neuralforecast/models.html'' ''cache/models.html'' 30 False
     \<lparr>files = [[''cache'', ''models.html''] \<mapsto> ''<html>''],
      dirs = {[], [''cache'']}, requests = []\<rparr>
   = (Inr ''<html>'',
      \<lparr>files = [[''cache'', ''models.html''] \<mapsto> ''<html>''],
       dirs = {[], [''cache'']}, requests = []\<rparr>)"
proof -
  have f: "files \<lparr>files = [[''cache'', ''models.html''] \<mapsto> ''<html>''],
          dirs = {[], [''cache'']}, requests = []\<rparr>
        ((\<lambda>s. [''cache'', ''models.html'']) ''cache/models.html'') = Some ''<html>''"
    by simp
  have n: "\<not> False" by simp
  note c = fetch_and_cache_cached
    [where w = "\<lparr>files = [[''cache'', ''models.html''] \<mapsto> ''<html>''],
          dirs = {[], [''cache'']}, requests = []\<rparr>"
       and resolve = "\<lambda>s. [''cache'', ''models.html'']" and cache_path = "''cache/models.html''"
       and t = "''<html>''" and force = False and http_get = "\<lambda>u n. RequestFailed"
       and url = "''https://nixtlaverse.nixtla.io/neuralforecast/models.html''" and timeout = 30]
  from c [OF fs_ok_example f n] show ?thesis by blast
qed

theorem fetch_and_cache_http_error_witness:
  "fst (fetch_and_cache (\<lambda>s. [''cache'', ''models.html'']) (\<lambda>u n. Response 404 ''Not Found'')
     ''https://nixtlaverse.nixtla.io/neuralforecast/models.html'' ''cache/models.html'' 30 False
     \<lparr>files = Map.empty, dirs = {[]}, requests = []\<rparr>) = Inl (HTTPStatusError 404)
   \<and> files (snd (fetch_and_cache (\<lambda>s. [''cache'', ''models.html'']) (\<lambda>u n. Response 404 ''Not Found'')
     ''https://nixtlaverse.nixtla.io/neuralforecast/models.html'' ''cache/models.html'' 30 False
     \<lparr>files = Map.empty, dirs = {[]}, requests = []\<rparr>)) = Map.empty"
proof -
  have miss: "files \<lparr>files = Map.empty, dirs = {[]}, requests = []\<rparr>
      ((\<lambda>s. [''cache'', ''models.html'']) ''cache/models.html'') = None \<or> False"
    by simp
  have resp: "(\<lambda>u n. Response 404 ''Not Found'')
      ''https://nixtlaverse.nixtla.io/neuralforecast/models.html'' (30 :: nat)
      = Response 404 ''Not Found''"
    by simp
  have lo: "(400 :: nat) \<le> 404" and hi: "(404 :: nat) < 600" by simp_all
  have ok: "fs_ok \<lparr>files = Map.empty, dirs = {[]}, requests = []\<rparr>"
    by (simp add: fs_ok_def)
  have nd: "(\<lambda>s. [''cache'', ''models.html'']) ''cache/models.html''
      \<notin> dirs \<lparr>files = Map.empty, dirs = {[]}, requests = []\<rparr> \<or> False"
    by simp
  have mk: "mkdir_parents (butlast ((\<lambda>s. [''cache'', ''models.html'']) ''cache/models.html''))
      \<lparr>files = Map.empty, dirs = {[]}, requests = []\<rparr> \<noteq> Inl MkdirFileExists"
    by (simp add: mkdir_parents_def ancestors_def)
  note c = fetch_and_cache_http_error
    [where w = "\<lparr>files = Map.empty, dirs = {[]}, requests = []\<rparr>"
       and resolve = "\<lambda>s. [''cache'', ''models.html'']" and cache_path = "''cache/models.html''"
       and force = False and http_get = "\<lambda>u n. Response 404 ''Not Found''"
       and url = "''https://nixtlaverse.nixtla.io/neuralforecast/models.html''" and timeout = 30
       and status = 404 and body = "''Not Found''"]
  let ?r = "fetch_and_cache (\<lambda>s. [''cache'', ''models.html'']) (\<lambda>u n. Response 404 ''Not Found'')
     ''https://nixtlaverse.nixtla.io/neuralforecast/models.html'' ''cache/models.html'' 30 False
     \<lparr>files = Map.empty, dirs = {[]}, requests = []\<rparr>"
  note r = c [OF miss resp lo hi]
  from r have "files (snd ?r) = files \<lparr>files = Map.empty, dirs = {[]}, requests = []\<rparr>"
    by (elim conjE)
  then have a: "files (snd ?r) = Map.empty" by simp
  from r ok nd mk have b: "fst ?r = Inl (HTTPStatusError 404)"
    by (elim conjE) (drule mp, intro conjI, assumption+, elim conjE, assumption)
  from b a show ?thesis by (intro conjI)
qed
section \<open>The family taxonomy parser\<close>

lemma fold_assign:
  "fold (\<lambda>n m. m(n \<mapsto> f)) ns m x = (if x \<in> set ns then Some f else m x)"
  by (induction ns arbitrary: m) auto

lemma norm_not_empty: "norm h \<noteq> []"
  by (simp add: norm_def Let_def)

lemma parse_line_family:
  "fst (parse_line ln st) = (if is_header ln then Some (norm ln) else fst st)"
  by (simp add: parse_line_def split: option.splits)

lemma parse_line_skip:
  "is_header ln \<or> x \<notin> set (find_auto_names ln) \<Longrightarrow> snd (parse_line ln st) x = snd st x"
  by (auto simp: parse_line_def fold_assign split: option.splits)

lemma parse_line_assign:
  "\<not> is_header ln \<Longrightarrow> fst st = Some f \<Longrightarrow> f \<noteq> [] \<Longrightarrow> x \<in> set (find_auto_names ln) \<Longrightarrow>
   snd (parse_line ln st) x = Some f"
  by (simp add: parse_line_def fold_assign)

lemma active_header_snoc:
  "active_header (lns @ [ln]) = (if is_header ln then Some ln else active_header lns)"
  by (simp add: active_header_def)

lemma fold_parse_line_family:
  "fst (fold parse_line lns st)
     = (case active_header lns of Some h \<Rightarrow> Some (norm h) | None \<Rightarrow> fst st)"
proof (induction lns rule: rev_induct)
  case Nil
  show ?case by (simp add: active_header_def)
next
  case (snoc ln lns)
  then show ?case by (simp add: parse_line_family active_header_snoc)
qed

lemma fold_parse_line_skip:
  "(\<forall>l\<in>set lns. is_header l \<or> x \<notin> set (find_auto_names l)) \<Longrightarrow>
   snd (fold parse_line lns st) x = snd st x"
proof (induction lns arbitrary: st)
  case Nil
  show ?case by simp
next
  case (Cons l lns)
  from Cons.prems have "snd (fold parse_line lns (parse_line l st)) x = snd (parse_line l st) x"
    by (intro Cons.IH) simp
  moreover from Cons.prems have "snd (parse_line l st) x = snd st x"
    by (intro parse_line_skip) simp
  ultimately show ?case by simp
qed

lemma fold_parse_line_no_header:
  "(\<forall>l\<in>set lns. \<not> is_header l) \<Longrightarrow> fold parse_line lns (None, m) = (None, m)"
  by (induction lns) (simp_all add: parse_line_def)

lemma parse_lines_attributed:
  assumes "active_header pre = Some h" and "\<not> is_header l"
      and "n \<in> set (find_auto_names l)"
      and "\<forall>l'\<in>set post. is_header l' \<or> n \<notin> set (find_auto_names l')"
  shows "parse_lines (pre @ l # post) n = Some (norm h)"
proof -
  let ?s = "fold parse_line pre (None, Map.empty)"
  from assms(1) have "fst ?s = Some (norm h)"
    by (simp add: fold_parse_line_family)
  with assms(2,3) have "snd (parse_line l ?s) n = Some (norm h)"
    by (intro parse_line_assign) (simp_all add: norm_not_empty)
  moreover
  have "snd (fold parse_line post (parse_line l ?s)) n = snd (parse_line l ?s) n"
    using fold_parse_line_skip [where lns = post and x = n and st = "parse_line l ?s", OF assms(4)] .
  ultimately show ?thesis by (simp add: parse_lines_def)
qed

lemma parse_lines_no_family:
  assumes "\<forall>l\<in>set (dropWhile (\<lambda>l. \<not> is_header l) lns). is_header l \<or> n \<notin> set (find_auto_names l)"
  shows "parse_lines lns n = None"
proof -
  let ?pre = "takeWhile (\<lambda>l. \<not> is_header l) lns"
  let ?post = "dropWhile (\<lambda>l. \<not> is_header l) lns"
  have "\<forall>l\<in>set ?pre. \<not> is_header l" by (auto dest: set_takeWhileD)
  then have "fold parse_line ?pre (None, Map.empty) = (None, Map.empty)"
    by (rule fold_parse_line_no_header)
  moreover have "fold parse_line lns (None, Map.empty)
      = fold parse_line ?post (fold parse_line ?pre (None, Map.empty))"
    by (metis fold_append takeWhile_dropWhile_id comp_apply)
  ultimately have "fold parse_line lns (None, Map.empty) = fold parse_line ?post (None, Map.empty)"
    by simp
  moreover have "snd (fold parse_line ?post (None, Map.empty)) n = None"
    using fold_parse_line_skip [where lns = ?post and x = n and st = "(None, Map.empty)", OF assms]
    by simp
  ultimately show ?thesis by (simp add: parse_lines_def)
qed

text \<open>
  C8, as the code has it. A line is a header when it contains one of the five labels as
  they are spelt, upper and lower case included. An Auto identifier found on a line that
  is not a header, behind a header, gets the family of the last header before that line,
  unless the identifier is found again on a later line that is not a header: the last
  such line decides. An identifier found on no such line (before the first header only,
  or on header lines only) gets no family. The parser is a total function: no input makes
  it fail.
\<close>

theorem parse_automodel_family_map_attribution:
  "(html_lines html = pre @ l # post \<and> active_header pre = Some h \<and> \<not> is_header l
      \<and> n \<in> set (find_auto_names l)
      \<and> (\<forall>l'\<in>set post. is_header l' \<or> n \<notin> set (find_auto_names l'))
    \<longrightarrow> parse_automodel_family_map html n = Some (norm h))
   \<and> ((\<forall>l'\<in>set (dropWhile (\<lambda>l. \<not> is_header l) (html_lines html)).
          is_header l' \<or> n \<notin> set (find_auto_names l'))
    \<longrightarrow> parse_automodel_family_map html n = None)"
proof (intro conjI impI)
  assume a: "html_lines html = pre @ l # post \<and> active_header pre = Some h \<and> \<not> is_header l
      \<and> n \<in> set (find_auto_names l)
      \<and> (\<forall>l'\<in>set post. is_header l' \<or> n \<notin> set (find_auto_names l'))"
  then have "parse_lines (pre @ l # post) n = Some (norm h)"
    by (intro parse_lines_attributed) simp_all
  with a show "parse_automodel_family_map html n = Some (norm h)"
    by (simp add: parse_automodel_family_map_def)
next
  assume "\<forall>l'\<in>set (dropWhile (\<lambda>l. \<not> is_header l) (html_lines html)).
          is_header l' \<or> n \<notin> set (find_auto_names l')"
  then have "parse_lines (html_lines html) n = None"
    by (rule parse_lines_no_family)
  then show "parse_automodel_family_map html n = None"
    by (simp add: parse_automodel_family_map_def)
qed

lemma html_lines_example:
  "html_lines ''<p>AutoGRU</p><h2>RNN-Based Models</h2><p>AutoLSTM</p>''
     = [''AutoGRU'', ''RNN-Based Models''] @ ''AutoLSTM'' # []"
  by code_simp

theorem parse_automodel_family_map_attribution_witness:
  "parse_automodel_family_map ''<p>AutoGRU</p><h2>RNN-Based Models</h2><p>AutoLSTM</p>''
     ''AutoLSTM'' = Some ''RNN''
   \<and> parse_automodel_family_map ''<p>AutoGRU</p><h2>RNN-Based Models</h2><p>AutoLSTM</p>''
     ''AutoGRU'' = None"
proof -
  have h: "active_header [''AutoGRU'', ''RNN-Based Models''] = Some ''RNN-Based Models''"
    by code_simp
  have nh: "\<not> is_header ''AutoLSTM''" by code_simp
  have m: "''AutoLSTM'' \<in> set (find_auto_names ''AutoLSTM'')" by code_simp
  have p: "\<forall>l'\<in>set []. is_header l' \<or> ''AutoLSTM'' \<notin> set (find_auto_names l')" by simp
  have nm: "norm ''RNN-Based Models'' = ''RNN''" by code_simp
  have d: "\<forall>l'\<in>set (dropWhile (\<lambda>l. \<not> is_header l)
        (html_lines ''<p>AutoGRU</p><h2>RNN-Based Models</h2><p>AutoLSTM</p>'')).
      is_header l' \<or> ''AutoGRU'' \<notin> set (find_auto_names l')"
    by code_simp
  from parse_automodel_family_map_attribution
    [of "''<p>AutoGRU</p><h2>RNN-Based Models</h2><p>AutoLSTM</p>''"
        "[''AutoGRU'', ''RNN-Based Models'']" "''AutoLSTM''" "[]" "''RNN-Based Models''" "''AutoLSTM''"]
    html_lines_example h nh m p
  have a: "parse_automodel_family_map ''<p>AutoGRU</p><h2>RNN-Based Models</h2><p>AutoLSTM</p>''
     ''AutoLSTM'' = Some (norm ''RNN-Based Models'')"
    by blast
  from parse_automodel_family_map_attribution
    [of "''<p>AutoGRU</p><h2>RNN-Based Models</h2><p>AutoLSTM</p>''"
        "[]" "[]" "[]" "[]" "''AutoGRU''"] d
  have b: "parse_automodel_family_map ''<p>AutoGRU</p><h2>RNN-Based Models</h2><p>AutoLSTM</p>''
     ''AutoGRU'' = None"
    by blast
  from a b show ?thesis unfolding nm by (intro conjI)
qed

text \<open>
  C8 as it is written fails on a header in another case: \<open>rnn-based models\<close> agrees with
  the label \<open>RNN-Based Models\<close> up to case, is not taken for a header, and the identifier
  behind it gets no family.
\<close>

theorem header_case_counterexample:
  "lower ''rnn-based models'' = lower ''RNN-Based Models''
   \<and> \<not> is_header ''rnn-based models''
   \<and> parse_automodel_family_map ''<h2>rnn-based models</h2><p>AutoLSTM</p>'' ''AutoLSTM'' = None
   \<and> parse_automodel_family_map ''<h2>RNN-Based Models</h2><p>AutoLSTM</p>'' ''AutoLSTM''
       = Some ''RNN''"
  by code_simp

section \<open>Termination of the flattener\<close>



















end
